theory Spec2Isabelle
  imports Complex_Main "HOL-Library.AList"
begin

section \<open>Basic types (types.h)\<close>

type_synonym AtomId = string
type_synonym AgentId = string

text \<open>A \<open>Timestamp\<close> is a point of the system clock; the clock reading is an explicit argument
  of every operation that reads it.\<close>

type_synonym Timestamp = nat

datatype AtomType =
    NODE | LINK | AGENT_NODE | CAPABILITY_NODE | GOAL_NODE | BELIEF_NODE | MEMORY_NODE
  | COLLABORATION_LINK | DELEGATION_LINK | TRUST_LINK | KNOWLEDGE_LINK | EVALUATION_LINK

datatype CognitivePhase =
    PERCEPTION | ATTENTION | REASONING | PLANNING | EXECUTION | LEARNING | REFLECTION

datatype ProcessingMode = SYNCHRONOUS | ASYNCHRONOUS | DISTRIBUTED

text \<open>\<open>std::clamp(v, lo, hi)\<close>. The \<open>double\<close> values of the program are modelled as
  real numbers: rounding, infinities and NaN are outside the model.\<close>

definition clamp :: "real \<Rightarrow> real \<Rightarrow> real \<Rightarrow> real" where
  "clamp v lo hi = (if v < lo then lo else if hi < v then hi else v)"

record TruthValue =
  strength :: real
  confidence :: real

text \<open>\<open>TruthValue()\<close> and \<open>TruthValue(s, c)\<close>.\<close>

definition TruthValue_default :: TruthValue where
  "TruthValue_default = \<lparr>strength = 0.5, confidence = 0\<rparr>"

definition mk_TruthValue :: "real \<Rightarrow> real \<Rightarrow> TruthValue" where
  "mk_TruthValue s c = \<lparr>strength = clamp s 0 1, confidence = clamp c 0 1\<rparr>"

record AttentionValue =
  sti :: real
  lti :: real
  vlti :: real

definition AttentionValue_default :: AttentionValue where
  "AttentionValue_default = \<lparr>sti = 0, lti = 0, vlti = 0\<rparr>"

definition mk_AttentionValue :: "real \<Rightarrow> real \<Rightarrow> real \<Rightarrow> AttentionValue" where
  "mk_AttentionValue s l v = \<lparr>sti = clamp s (-1) 1, lti = clamp l (-1) 1, vlti = clamp v 0 1\<rparr>"

section \<open>Atoms (agentspace.h)\<close>

text \<open>An \<open>AtomPtr\<close> is a \<open>std::shared_ptr<Atom>\<close>: either null (\<open>None\<close>) or the address
  of an atom object. Atom objects live in a heap, a list indexed by address; an object is
  never freed in the model, which is what a shared pointer guarantees for as long as any
  pointer to the object exists.\<close>

type_synonym AtomPtr = "nat option"

text \<open>\<open>Node\<close> adds \<open>value_\<close> to \<open>Atom\<close>, \<open>Link\<close> adds \<open>outgoing_\<close>, a vector of shared
  pointers to atom objects (not of ids).\<close>

datatype AtomKind = Node (node_value: string) | Link (outgoing: "AtomPtr list")

record Atom =
  atom_id :: AtomId
  atom_type :: AtomType
  atom_name :: string
  truth_value :: TruthValue
  attention_value :: AttentionValue
  timestamp :: Timestamp
  metadata :: "string \<rightharpoonup> string"
  kind :: AtomKind

text \<open>\<open>Atom::Atom(type, name)\<close>: the id comes from the UUID generator (an argument here),
  an empty name is replaced by \<open>"atom_" + id.substr(0, 8)\<close>.\<close>

definition new_Atom :: "AtomId \<Rightarrow> Timestamp \<Rightarrow> AtomType \<Rightarrow> string \<Rightarrow> AtomKind \<Rightarrow> Atom" where
  "new_Atom uuid now ty name k =
     \<lparr>atom_id = uuid, atom_type = ty,
      atom_name = (if name = [] then ''atom_'' @ take 8 uuid else name),
      truth_value = TruthValue_default, attention_value = AttentionValue_default,
      timestamp = now, metadata = Map.empty, kind = k\<rparr>"

section \<open>AgentSpace (agentspace.h, agentspace.cpp)\<close>

text \<open>\<open>atoms_\<close> is an \<open>unordered_map<AtomId, AtomPtr>\<close>: an association list with one entry
  per key, whose order stands for the map's iteration order. The two indices map a key to an
  \<open>unordered_set<AtomId>\<close>; a key is absent until \<open>operator[]\<close> creates it.\<close>

record AgentSpace =
  space_name :: string
  objects :: "Atom list"
  atoms :: "(AtomId \<times> nat) list"
  atoms_by_type :: "AtomType \<rightharpoonup> AtomId set"
  atoms_by_name :: "string \<rightharpoonup> AtomId set"
  atom_counter :: nat
  attentional_focus :: "AtomId list"

definition new_AgentSpace :: "string \<Rightarrow> AgentSpace" where
  "new_AgentSpace name =
     \<lparr>space_name = name, objects = [], atoms = [], atoms_by_type = Map.empty,
      atoms_by_name = Map.empty, atom_counter = 0, attentional_focus = []\<rparr>"

text \<open>\<open>index[key]\<close>: the set stored under \<open>key\<close>, empty when \<open>operator[]\<close> has to create it.\<close>

definition index_at :: "('k \<rightharpoonup> AtomId set) \<Rightarrow> 'k \<Rightarrow> AtomId set" where
  "index_at m k = (case m k of None \<Rightarrow> {} | Some S \<Rightarrow> S)"

definition index_insert :: "('k \<rightharpoonup> AtomId set) \<Rightarrow> 'k \<Rightarrow> AtomId \<Rightarrow> ('k \<rightharpoonup> AtomId set)" where
  "index_insert m k x = m(k \<mapsto> insert x (index_at m k))"

definition index_erase :: "('k \<rightharpoonup> AtomId set) \<Rightarrow> 'k \<Rightarrow> AtomId \<Rightarrow> ('k \<rightharpoonup> AtomId set)" where
  "index_erase m k x = m(k \<mapsto> index_at m k - {x})"

text \<open>Allocation of an atom object (\<open>std::make_shared\<close>): the new object's address is the
  next free one.\<close>

definition alloc :: "Atom \<Rightarrow> AgentSpace \<Rightarrow> nat \<times> AgentSpace" where
  "alloc a s = (length (objects s), s\<lparr>objects := objects s @ [a]\<rparr>)"

text \<open>Update of the object behind a pointer in place.\<close>

definition modify :: "nat \<Rightarrow> (Atom \<Rightarrow> Atom) \<Rightarrow> AgentSpace \<Rightarrow> AgentSpace" where
  "modify p f s =
     (if p < length (objects s) then s\<lparr>objects := (objects s)[p := f (objects s ! p)]\<rparr> else s)"

definition setName :: "nat \<Rightarrow> string \<Rightarrow> AgentSpace \<Rightarrow> AgentSpace" where
  "setName p name s = modify p (\<lambda>a. a\<lparr>atom_name := name\<rparr>) s"

definition setTruthValue :: "nat \<Rightarrow> TruthValue \<Rightarrow> AgentSpace \<Rightarrow> AgentSpace" where
  "setTruthValue p tv s = modify p (\<lambda>a. a\<lparr>truth_value := tv\<rparr>) s"

definition setAttentionValue :: "nat \<Rightarrow> AttentionValue \<Rightarrow> AgentSpace \<Rightarrow> AgentSpace" where
  "setAttentionValue p av s = modify p (\<lambda>a. a\<lparr>attention_value := av\<rparr>) s"

definition setMetadata :: "nat \<Rightarrow> string \<Rightarrow> string \<Rightarrow> AgentSpace \<Rightarrow> AgentSpace" where
  "setMetadata p key v s = modify p (\<lambda>a. a\<lparr>metadata := (metadata a)(key \<mapsto> v)\<rparr>) s"

definition addAtomToIndices :: "nat \<Rightarrow> AgentSpace \<Rightarrow> AgentSpace" where
  "addAtomToIndices p s =
     (let a = objects s ! p in
      s\<lparr>atoms_by_type := index_insert (atoms_by_type s) (atom_type a) (atom_id a),
        atoms_by_name := index_insert (atoms_by_name s) (atom_name a) (atom_id a)\<rparr>)"

definition removeAtomFromIndices :: "nat \<Rightarrow> AgentSpace \<Rightarrow> AgentSpace" where
  "removeAtomFromIndices p s =
     (let a = objects s ! p in
      s\<lparr>atoms_by_type := index_erase (atoms_by_type s) (atom_type a) (atom_id a),
        atoms_by_name := index_erase (atoms_by_name s) (atom_name a) (atom_id a)\<rparr>)"

text \<open>\<open>addAtom\<close> returns its argument, or null for a null argument (the only failure it
  has; there is no error value).\<close>

definition addAtom :: "AtomPtr \<Rightarrow> AgentSpace \<Rightarrow> AtomPtr \<times> AgentSpace" where
  "addAtom atom s =
     (case atom of
        None \<Rightarrow> (None, s)
      | Some p \<Rightarrow>
          (let ident = atom_id (objects s ! p);
               s1 = s\<lparr>atoms := AList.update ident p (atoms s)\<rparr>;
               s2 = addAtomToIndices p s1
           in (Some p, s2\<lparr>atom_counter := atom_counter s2 + 1\<rparr>)))"

definition removeAtom :: "AtomId \<Rightarrow> AgentSpace \<Rightarrow> bool \<times> AgentSpace" where
  "removeAtom ident s =
     (case map_of (atoms s) ident of
        None \<Rightarrow> (False, s)
      | Some p \<Rightarrow>
          (let s1 = removeAtomFromIndices p s
           in (True, s1\<lparr>atoms := AList.delete ident (atoms s1)\<rparr>)))"

definition getAtom :: "AtomId \<Rightarrow> AgentSpace \<Rightarrow> AtomPtr" where
  "getAtom ident s = map_of (atoms s) ident"

definition getAtoms :: "AgentSpace \<Rightarrow> nat list" where
  "getAtoms s = map snd (atoms s)"

subsection \<open>Attention management\<close>

definition addToAttentionalFocus :: "AtomId \<Rightarrow> AgentSpace \<Rightarrow> AgentSpace" where
  "addToAttentionalFocus ident s =
     (let f1 = removeAll ident (attentional_focus s);
          f2 = f1 @ [ident];
          max_focus_size = 20;
          f3 = (if length f2 > max_focus_size then tl f2 else f2)
      in s\<lparr>attentional_focus := f3\<rparr>)"

definition removeFromAttentionalFocus :: "AtomId \<Rightarrow> AgentSpace \<Rightarrow> AgentSpace" where
  "removeFromAttentionalFocus ident s =
     s\<lparr>attentional_focus := removeAll ident (attentional_focus s)\<rparr>"

definition getAttentionalFocus :: "AgentSpace \<Rightarrow> AtomId list" where
  "getAttentionalFocus s = attentional_focus s"

text \<open>The decay step of \<open>updateAttentionValues\<close>; each assignment reads the values
  assigned before it.\<close>

definition decay :: "AttentionValue \<Rightarrow> AttentionValue" where
  "decay av =
     (let av1 = av\<lparr>sti := sti av * 0.99\<rparr>;
          av2 = av1\<lparr>lti := lti av1 * 0.999 + sti av1 * 0.001\<rparr>;
          av3 = av2\<lparr>vlti := vlti av2 * 0.9999 + lti av2 * 0.0001\<rparr>
      in av3)"

definition updateAttentionValues :: "AgentSpace \<Rightarrow> AgentSpace" where
  "updateAttentionValues s =
     fold (\<lambda>p s'. setAttentionValue p (decay (attention_value (objects s' ! p))) s')
          (getAtoms s) s"

definition clear :: "AgentSpace \<Rightarrow> AgentSpace" where
  "clear s = s\<lparr>atoms := [], atoms_by_type := Map.empty, atoms_by_name := Map.empty,
               attentional_focus := [], atom_counter := 0\<rparr>"

subsection \<open>Node and link construction\<close>

text \<open>\<open>std::make_shared<Node>(type, name, value)\<close> and \<open>std::make_shared<Link>(type, outgoing,
  name)\<close>; \<open>uuid\<close> is the id the generator returns for the new atom.\<close>

definition new_Node ::
  "AtomType \<Rightarrow> string \<Rightarrow> string \<Rightarrow> AtomId \<Rightarrow> Timestamp \<Rightarrow> AgentSpace \<Rightarrow> nat \<times> AgentSpace" where
  "new_Node ty name v uuid now s = alloc (new_Atom uuid now ty name (Node v)) s"

definition new_Link ::
  "AtomType \<Rightarrow> AtomPtr list \<Rightarrow> string \<Rightarrow> AtomId \<Rightarrow> Timestamp \<Rightarrow> AgentSpace \<Rightarrow> nat \<times> AgentSpace" where
  "new_Link ty out name uuid now s = alloc (new_Atom uuid now ty name (Link out)) s"

text \<open>\<open>Link::addOutgoing\<close> and \<open>Link::removeOutgoing\<close>, on the link object at \<open>p\<close>.\<close>

definition addOutgoing :: "nat \<Rightarrow> AtomPtr \<Rightarrow> AgentSpace \<Rightarrow> AgentSpace" where
  "addOutgoing p atom s =
     (case atom of
        None \<Rightarrow> s
      | Some q \<Rightarrow>
          modify p (\<lambda>a. case kind a of Link out \<Rightarrow> a\<lparr>kind := Link (out @ [Some q])\<rparr> | Node v \<Rightarrow> a) s)"

definition removeOutgoing :: "nat \<Rightarrow> AtomPtr \<Rightarrow> AgentSpace \<Rightarrow> AgentSpace" where
  "removeOutgoing p atom s =
     modify p (\<lambda>a. case kind a of Link out \<Rightarrow> a\<lparr>kind := Link (removeAll atom out)\<rparr> | Node v \<Rightarrow> a) s"

text \<open>\<open>short\<close> is the result of \<open>UUIDGenerator::generateShort()\<close>.\<close>

definition addMemoryNode ::
  "string \<Rightarrow> string \<Rightarrow> AtomId \<Rightarrow> string \<Rightarrow> Timestamp \<Rightarrow> AgentSpace \<Rightarrow> nat \<times> AgentSpace" where
  "addMemoryNode content ty uuid short now s =
     (let (p, s1) = new_Node MEMORY_NODE (''memory_'' @ short) content uuid now s;
          s2 = setMetadata p ''memory_type'' ty s1;
          s3 = setAttentionValue p (mk_AttentionValue 0.5 0.0 0.3) s2;
          (r, s4) = addAtom (Some p) s3
      in (p, s4))"

definition addGoalNode ::
  "string \<Rightarrow> real \<Rightarrow> AtomId \<Rightarrow> Timestamp \<Rightarrow> AgentSpace \<Rightarrow> nat \<times> AgentSpace" where
  "addGoalNode goal prio uuid now s =
     (let (p, s1) = new_Node GOAL_NODE goal [] uuid now s;
          s2 = setTruthValue p (mk_TruthValue prio 0.8) s1;
          (r, s3) = addAtom (Some p) s2
      in (p, s3))"

definition addCapabilityNode ::
  "string \<Rightarrow> string \<Rightarrow> AtomId \<Rightarrow> Timestamp \<Rightarrow> AgentSpace \<Rightarrow> nat \<times> AgentSpace" where
  "addCapabilityNode name descr uuid now s =
     (let (p, s1) = new_Node CAPABILITY_NODE name descr uuid now s;
          (r, s2) = addAtom (Some p) s1
      in (p, s2))"

text \<open>\<open>addTrustRelationship\<close>; \<open>to_string_double\<close> stands for \<open>std::to_string(double)\<close>,
  which is not part of the program. The result is null when an endpoint is not in the store.\<close>

definition addTrustRelationship ::
  "AgentId \<Rightarrow> AgentId \<Rightarrow> real \<Rightarrow> AtomId \<Rightarrow> Timestamp \<Rightarrow> (real \<Rightarrow> string) \<Rightarrow> AgentSpace
     \<Rightarrow> AtomPtr \<times> AgentSpace" where
  "addTrustRelationship agent1 agent2 trust_level uuid now to_string_double s =
     (case (getAtom agent1 s, getAtom agent2 s) of
        (Some a1, Some a2) \<Rightarrow>
          (let (p, s1) = new_Link TRUST_LINK [Some a1, Some a2] [] uuid now s;
               s2 = setTruthValue p (mk_TruthValue trust_level 0.5) s1;
               s3 = setMetadata p ''trust_level'' (to_string_double trust_level) s2
           in addAtom (Some p) s3)
      | _ \<Rightarrow> (None, s))"

text \<open>\<open>getMostImportantAtoms\<close> sorts with \<open>std::sort\<close> by decreasing \<open>sti + lti + vlti\<close>; the
  order of atoms of equal importance is the library's choice, here the order of \<open>getAtoms\<close>.\<close>

definition importance :: "Atom \<Rightarrow> real" where
  "importance a = sti (attention_value a) + lti (attention_value a) + vlti (attention_value a)"

definition getMostImportantAtoms :: "nat \<Rightarrow> AgentSpace \<Rightarrow> nat list" where
  "getMostImportantAtoms limit s =
     take limit (sort_key (\<lambda>p. - importance (objects s ! p)) (getAtoms s))"

section \<open>Utilities (utils.cpp)\<close>

text \<open>\<open>std::to_string\<close> on an unsigned and on a signed integer: the decimal digits.\<close>

fun to_string :: "nat \<Rightarrow> string" where
  "to_string n =
     (if n < 10 then [''0123456789'' ! n]
      else to_string (n div 10) @ [''0123456789'' ! (n mod 10)])"

declare to_string.simps [simp del]

definition to_string_int :: "int \<Rightarrow> string" where
  "to_string_int i = (if i < 0 then CHR ''-'' # to_string (nat (- i)) else to_string (nat i))"

text \<open>\<open>StringUtils::split\<close>: the \<open>std::getline\<close> loop. \<open>tok\<close> holds the characters of the
  token being read, newest first. At the end of the input a token is produced only if
  characters were read for it, so a trailing delimiter adds no empty token.\<close>

fun split_from :: "string \<Rightarrow> string \<Rightarrow> char \<Rightarrow> string list" where
  "split_from tok [] d = (if tok = [] then [] else [rev tok])"
| "split_from tok (c # cs) d =
     (if c = d then rev tok # split_from [] cs d else split_from (c # tok) cs d)"

definition split :: "string \<Rightarrow> char \<Rightarrow> string list" where
  "split str d = split_from [] str d"

fun join :: "string list \<Rightarrow> string \<Rightarrow> string" where
  "join [] sep = []"
| "join (x # xs) sep = x @ concat (map (\<lambda>y. sep @ y) xs)"

definition is_space :: "char \<Rightarrow> bool" where
  "is_space c = (c \<in> {CHR '' '', CHR 0x09, CHR 0x0A, CHR 0x0D, CHR 0x0C, CHR 0x0B})"

definition trim :: "string \<Rightarrow> string" where
  "trim str = rev (dropWhile is_space (rev (dropWhile is_space str)))"

definition is_digit :: "char \<Rightarrow> bool" where
  "is_digit c = (c \<in> set ''0123456789'')"

definition digit_val :: "char \<Rightarrow> int" where
  "digit_val c = int (of_char c) - 48"

text \<open>\<open>std::stoi\<close>: leading white space, an optional sign, then the longest run of decimal
  digits; \<open>None\<close> stands for the exception thrown when there is no digit or the value does
  not fit an \<open>int\<close>.\<close>

definition stoi :: "string \<Rightarrow> int option" where
  "stoi str =
     (let s1 = dropWhile is_space str;
          neg = (case s1 of c # r \<Rightarrow> c = CHR ''-'' | [] \<Rightarrow> False);
          s2 = (case s1 of c # r \<Rightarrow> (if c = CHR ''-'' \<or> c = CHR ''+'' then r else s1) | [] \<Rightarrow> s1);
          ds = takeWhile is_digit s2;
          v = foldl (\<lambda>acc c. 10 * acc + digit_val c) 0 ds;
          r = (if neg then - v else v)
      in if ds = [] then None
         else if r < - 2147483648 \<or> 2147483647 < r then None
         else Some r)"

definition parseInt :: "string \<Rightarrow> int \<Rightarrow> int" where
  "parseInt str default_value = (case stoi (trim str) of None \<Rightarrow> default_value | Some v \<Rightarrow> v)"

text \<open>\<open>TimeUtils::timestampToString\<close> renders a clock reading as text; the calendar format is
  not modelled, the text is the reading in decimal.\<close>

definition timestampToString :: "Timestamp \<Rightarrow> string" where
  "timestampToString t = to_string t"

section \<open>Cognitive microkernel (types.h, microkernel.h, microkernel.cpp)\<close>

record CognitiveState =
  agent_id :: AgentId
  current_phase :: CognitivePhase
  goals :: "string list"
  beliefs :: "string \<rightharpoonup> string"
  intentions :: "string list"
  current_focus :: "string list"
  last_update :: Timestamp

text \<open>\<open>CognitiveState()\<close> and \<open>CognitiveState(id)\<close>; both read the clock.\<close>

definition CognitiveState_default :: "Timestamp \<Rightarrow> CognitiveState" where
  "CognitiveState_default now =
     \<lparr>agent_id = [], current_phase = PERCEPTION, goals = [], beliefs = Map.empty,
      intentions = [], current_focus = [], last_update = now\<rparr>"

definition new_CognitiveState :: "AgentId \<Rightarrow> Timestamp \<Rightarrow> CognitiveState" where
  "new_CognitiveState ident now = (CognitiveState_default now)\<lparr>agent_id := ident\<rparr>"

text \<open>The member \<open>execution_function\<close> of \<open>CognitiveTask\<close> is never assigned or called and is
  left out.\<close>

record CognitiveTask =
  task_id :: string
  task_agent_id :: AgentId
  phase :: CognitivePhase
  description :: string
  parameters :: "string \<rightharpoonup> string"
  created_at :: Timestamp
  scheduled_at :: Timestamp
  priority :: int

text \<open>\<open>CognitiveTask()\<close>: \<open>priority\<close> has the default member initialiser 0; \<open>phase\<close> has none
  and is assigned before the only use of the task.\<close>

definition new_CognitiveTask :: "Timestamp \<Rightarrow> CognitiveTask" where
  "new_CognitiveTask now =
     \<lparr>task_id = [], task_agent_id = [], phase = PERCEPTION, description = [],
      parameters = Map.empty, created_at = now, scheduled_at = now, priority = 0\<rparr>"

text \<open>\<open>CognitiveTask::operator<\<close>, the order of the priority queue.\<close>

definition task_less :: "CognitiveTask \<Rightarrow> CognitiveTask \<Rightarrow> bool" where
  "task_less a b = (priority a < priority b)"

record CognitiveContext =
  ctx_agent_id :: AgentId
  variables :: "string \<rightharpoonup> string"
  focus_atoms :: "string list"
  processing_time :: nat

definition new_CognitiveContext :: "AgentId \<Rightarrow> CognitiveContext" where
  "new_CognitiveContext ident =
     \<lparr>ctx_agent_id = ident, variables = Map.empty, focus_atoms = [], processing_time = 0\<rparr>"

record ProcessingStats =
  total_cycles :: nat
  completed_tasks :: nat
  failed_tasks :: nat
  total_processing_time :: nat
  start_time :: Timestamp

definition new_ProcessingStats :: "Timestamp \<Rightarrow> ProcessingStats" where
  "new_ProcessingStats now =
     \<lparr>total_cycles = 0, completed_tasks = 0, failed_tasks = 0, total_processing_time = 0,
      start_time = now\<rparr>"

text \<open>The kernel. \<open>agent_states_\<close> is an \<open>unordered_map\<close>, an association list as for the
  atoms. A callback is an opaque function; it is named by a number here, and
  \<open>callback_log\<close> records each call made to one, with the state passed to it.
  \<open>task_queue_\<close> is a \<open>std::priority_queue<CognitiveTask>\<close>, kept as the list of its
  elements in the order they were pushed. The worker threads are not part of the record.\<close>

record CognitiveMicrokernel =
  agentspace :: AgentSpace
  processing_mode :: ProcessingMode
  cycle_interval :: real
  agent_states :: "(AgentId \<times> CognitiveState) list"
  agent_callbacks :: "(AgentId \<times> nat list) list"
  callback_log :: "(nat \<times> CognitiveState) list"
  task_queue :: "CognitiveTask list"
  running :: bool
  num_workers :: nat
  stats :: ProcessingStats

definition new_CognitiveMicrokernel ::
  "AgentSpace \<Rightarrow> ProcessingMode \<Rightarrow> nat \<Rightarrow> Timestamp \<Rightarrow> CognitiveMicrokernel" where
  "new_CognitiveMicrokernel sp mode workers now =
     \<lparr>agentspace = sp, processing_mode = mode, cycle_interval = 1.0, agent_states = [],
      agent_callbacks = [], callback_log = [], task_queue = [], running = False,
      num_workers = workers, stats = new_ProcessingStats now\<rparr>"

subsection \<open>Agent table\<close>

definition addCognitiveAgent ::
  "AgentId \<Rightarrow> string list \<Rightarrow> (string \<rightharpoonup> string) \<Rightarrow> Timestamp \<Rightarrow> CognitiveMicrokernel
     \<Rightarrow> CognitiveState \<times> CognitiveMicrokernel" where
  "addCognitiveAgent ident gs bs now k =
     (case map_of (agent_states k) ident of
        Some existing \<Rightarrow> (existing, k)
      | None \<Rightarrow>
          (let state = (new_CognitiveState ident now)
                 \<lparr>goals := gs, beliefs := bs, current_phase := PERCEPTION, last_update := now\<rparr>
           in (state, k\<lparr>agent_states := AList.update ident state (agent_states k)\<rparr>)))"

definition removeCognitiveAgent :: "AgentId \<Rightarrow> CognitiveMicrokernel \<Rightarrow> bool \<times> CognitiveMicrokernel" where
  "removeCognitiveAgent ident k =
     (case map_of (agent_states k) ident of
        None \<Rightarrow> (False, k)
      | Some st \<Rightarrow>
          (True, k\<lparr>agent_states := AList.delete ident (agent_states k),
                   agent_callbacks := AList.delete ident (agent_callbacks k)\<rparr>))"

definition hasAgent :: "AgentId \<Rightarrow> CognitiveMicrokernel \<Rightarrow> bool" where
  "hasAgent ident k = (map_of (agent_states k) ident \<noteq> None)"

definition getActiveAgents :: "CognitiveMicrokernel \<Rightarrow> AgentId list" where
  "getActiveAgents k = map fst (agent_states k)"

definition getCognitiveState :: "AgentId \<Rightarrow> Timestamp \<Rightarrow> CognitiveMicrokernel \<Rightarrow> CognitiveState" where
  "getCognitiveState ident now k =
     (case map_of (agent_states k) ident of
        Some st \<Rightarrow> st
      | None \<Rightarrow> CognitiveState_default now)"

definition notifyCallbacks ::
  "AgentId \<Rightarrow> CognitiveState \<Rightarrow> CognitiveMicrokernel \<Rightarrow> CognitiveMicrokernel" where
  "notifyCallbacks ident state k =
     (case map_of (agent_callbacks k) ident of
        None \<Rightarrow> k
      | Some cbs \<Rightarrow> k\<lparr>callback_log := callback_log k @ map (\<lambda>c. (c, state)) cbs\<rparr>)"

definition updateCognitiveState ::
  "AgentId \<Rightarrow> CognitiveState \<Rightarrow> Timestamp \<Rightarrow> CognitiveMicrokernel \<Rightarrow> bool \<times> CognitiveMicrokernel" where
  "updateCognitiveState ident state now k =
     (case map_of (agent_states k) ident of
        None \<Rightarrow> (False, k)
      | Some old \<Rightarrow>
          (let k1 = k\<lparr>agent_states :=
                        AList.update ident (state\<lparr>last_update := now\<rparr>) (agent_states k)\<rparr>
           in (True, notifyCallbacks ident state k1)))"

definition addGoal :: "AgentId \<Rightarrow> string \<Rightarrow> Timestamp \<Rightarrow> CognitiveMicrokernel \<Rightarrow> CognitiveMicrokernel" where
  "addGoal ident goal now k =
     (case map_of (agent_states k) ident of
        None \<Rightarrow> k
      | Some st \<Rightarrow>
          (if goal \<in> set (goals st) then k
           else k\<lparr>agent_states :=
                    AList.update ident (st\<lparr>goals := goals st @ [goal], last_update := now\<rparr>)
                      (agent_states k)\<rparr>))"

definition updateBelief ::
  "AgentId \<Rightarrow> string \<Rightarrow> string \<Rightarrow> Timestamp \<Rightarrow> CognitiveMicrokernel \<Rightarrow> CognitiveMicrokernel" where
  "updateBelief ident key v now k =
     (case map_of (agent_states k) ident of
        None \<Rightarrow> k
      | Some st \<Rightarrow>
          k\<lparr>agent_states :=
               AList.update ident (st\<lparr>beliefs := (beliefs st)(key \<mapsto> v), last_update := now\<rparr>)
                 (agent_states k)\<rparr>)"

definition registerCallback :: "AgentId \<Rightarrow> nat \<Rightarrow> CognitiveMicrokernel \<Rightarrow> CognitiveMicrokernel" where
  "registerCallback ident cb k =
     k\<lparr>agent_callbacks :=
          AList.update ident
            ((case map_of (agent_callbacks k) ident of None \<Rightarrow> [] | Some cbs \<Rightarrow> cbs) @ [cb])
            (agent_callbacks k)\<rparr>"

definition unregisterCallbacks :: "AgentId \<Rightarrow> CognitiveMicrokernel \<Rightarrow> CognitiveMicrokernel" where
  "unregisterCallbacks ident k = k\<lparr>agent_callbacks := AList.delete ident (agent_callbacks k)\<rparr>"

subsection \<open>Scheduling\<close>

definition scheduleTask :: "CognitiveTask \<Rightarrow> CognitiveMicrokernel \<Rightarrow> CognitiveMicrokernel" where
  "scheduleTask task k = k\<lparr>task_queue := task_queue k @ [task]\<rparr>"

definition phase_index :: "CognitivePhase \<Rightarrow> nat" where
  "phase_index ph =
     (case ph of PERCEPTION \<Rightarrow> 0 | ATTENTION \<Rightarrow> 1 | REASONING \<Rightarrow> 2 | PLANNING \<Rightarrow> 3
               | EXECUTION \<Rightarrow> 4 | LEARNING \<Rightarrow> 5 | REFLECTION \<Rightarrow> 6)"

text \<open>\<open>scheduleCognitivePhase\<close>; \<open>short\<close> is the random part of \<open>generateTaskId()\<close>. The
  task's \<open>priority\<close> is not assigned.\<close>

definition scheduleCognitivePhase ::
  "AgentId \<Rightarrow> CognitivePhase \<Rightarrow> (string \<rightharpoonup> string) \<Rightarrow> string \<Rightarrow> Timestamp
     \<Rightarrow> CognitiveMicrokernel \<Rightarrow> CognitiveMicrokernel" where
  "scheduleCognitivePhase ident ph params short now k =
     scheduleTask
       ((new_CognitiveTask now)
          \<lparr>task_id := ''task_'' @ short, task_agent_id := ident, phase := ph,
           description := ''Cognitive phase: '' @ to_string (phase_index ph),
           parameters := params, scheduled_at := now\<rparr>) k"

definition cycle_phases :: "CognitivePhase list" where
  "cycle_phases = [PERCEPTION, ATTENTION, REASONING, PLANNING, EXECUTION, LEARNING, REFLECTION]"

text \<open>\<open>runCognitiveCycle\<close>; \<open>short ph\<close> is the random part of the id of the task for \<open>ph\<close>.
  Each phase is scheduled with the default (empty) parameters.\<close>

definition runCognitiveCycle ::
  "AgentId \<Rightarrow> (CognitivePhase \<Rightarrow> string) \<Rightarrow> Timestamp \<Rightarrow> CognitiveMicrokernel
     \<Rightarrow> CognitiveMicrokernel" where
  "runCognitiveCycle ident short now k =
     (if \<not> hasAgent ident k then k
      else
        (let k1 = fold (\<lambda>ph. scheduleCognitivePhase ident ph Map.empty (short ph) now)
                       cycle_phases k
         in k1\<lparr>stats := (stats k1)\<lparr>total_cycles := total_cycles (stats k1) + 1\<rparr>\<rparr>))"

subsection \<open>Phase helpers\<close>

text \<open>What a handler takes from outside the program while it runs: the clock, the ids drawn
  from the random generator for an atom it creates, and the time the task took.\<close>

record Env =
  env_now :: Timestamp
  env_uuid :: AtomId
  env_short :: string
  env_duration :: nat

text \<open>\<open>variables[key]\<close> read through \<open>std::map::operator[]\<close>: a missing key is created with
  the empty string.\<close>

definition var_read :: "string \<Rightarrow> (string \<rightharpoonup> string) \<Rightarrow> string \<times> (string \<rightharpoonup> string)" where
  "var_read key vars = (case vars key of None \<Rightarrow> ([], vars(key \<mapsto> [])) | Some v \<Rightarrow> (v, vars))"

definition gatherEnvironmentalData ::
  "AgentId \<Rightarrow> CognitiveContext \<Rightarrow> Env \<Rightarrow> CognitiveMicrokernel \<Rightarrow> CognitiveContext" where
  "gatherEnvironmentalData ident ctx env k =
     (let focus = getAttentionalFocus (agentspace k);
          ctx1 = ctx\<lparr>focus_atoms := focus_atoms ctx @ focus\<rparr>;
          ctx2 = ctx1\<lparr>variables :=
                   (variables ctx1)(''perception_timestamp'' \<mapsto> timestampToString (env_now env))\<rparr>
      in ctx2\<lparr>variables := (variables ctx2)(''environment_state'' \<mapsto> ''active'')\<rparr>)"

definition selectAttentionalFocus ::
  "AgentId \<Rightarrow> CognitiveContext \<Rightarrow> CognitiveMicrokernel \<Rightarrow> CognitiveContext \<times> CognitiveMicrokernel" where
  "selectAttentionalFocus ident ctx k =
     (let sp = agentspace k;
          important_atoms = getMostImportantAtoms 5 sp;
          ids = map (\<lambda>p. atom_id (objects sp ! p)) important_atoms
      in (ctx\<lparr>focus_atoms := ids\<rparr>, k\<lparr>agentspace := fold addToAttentionalFocus ids sp\<rparr>))"

definition performReasoning ::
  "AgentId \<Rightarrow> CognitiveContext \<Rightarrow> Env \<Rightarrow> CognitiveMicrokernel \<Rightarrow> CognitiveContext" where
  "performReasoning ident ctx env k =
     (let state = getCognitiveState ident (env_now env) k;
          v1 = (variables ctx)(''active_goals'' \<mapsto> join (goals state) '','');
          v2 = v1(''reasoning_result'' \<mapsto> ''goal_analysis_complete'')
      in ctx\<lparr>variables := v2(''reasoning_confidence'' \<mapsto> ''0.8'')\<rparr>)"

definition createActionPlans ::
  "AgentId \<Rightarrow> CognitiveContext \<Rightarrow> Env \<Rightarrow> CognitiveMicrokernel
     \<Rightarrow> CognitiveContext \<times> CognitiveMicrokernel" where
  "createActionPlans ident ctx env k =
     (let state = getCognitiveState ident (env_now env) k;
          plans = map (\<lambda>goal. ''plan_for_'' @ goal) (goals state);
          ctx1 = ctx\<lparr>variables := (variables ctx)(''action_plans'' \<mapsto> join plans '','')\<rparr>;
          (ok, k1) = updateCognitiveState ident (state\<lparr>intentions := plans\<rparr>) (env_now env) k
      in (ctx1, k1))"

text \<open>\<open>executeActions\<close>: the loop over \<open>plans\<close> only writes a log line per plan.\<close>

definition executeActions :: "AgentId \<Rightarrow> CognitiveContext \<Rightarrow> CognitiveContext" where
  "executeActions ident ctx =
     (let (plans_str, v1) = var_read ''action_plans'' (variables ctx);
          plans = split plans_str CHR '',''
      in ctx\<lparr>variables := v1(''actions_executed'' \<mapsto> to_string (length plans))\<rparr>)"

definition updateKnowledge ::
  "AgentId \<Rightarrow> CognitiveContext \<Rightarrow> Env \<Rightarrow> CognitiveMicrokernel
     \<Rightarrow> CognitiveContext \<times> CognitiveMicrokernel" where
  "updateKnowledge ident ctx env k =
     (let (str, v1) = var_read ''actions_executed'' (variables ctx);
          actions_executed = parseInt str 0
      in if actions_executed > 0 then
           (let memory_content =
                  ''Executed '' @ to_string_int actions_executed @ '' actions successfully'';
                (p, sp) = addMemoryNode memory_content ''procedural'' (env_uuid env)
                            (env_short env) (env_now env) (agentspace k)
            in (ctx\<lparr>variables := v1(''learning_outcome'' \<mapsto> ''knowledge_updated'')\<rparr>,
                k\<lparr>agentspace := sp\<rparr>))
         else (ctx\<lparr>variables := v1\<rparr>, k))"

text \<open>\<open>evaluatePerformance\<close>: the score is 0.8 or 0.3, which \<open>std::to_string\<close> prints with six
  decimals.\<close>

definition evaluatePerformance :: "AgentId \<Rightarrow> CognitiveContext \<Rightarrow> CognitiveContext" where
  "evaluatePerformance ident ctx =
     (let (str, v1) = var_read ''actions_executed'' (variables ctx);
          actions_executed = parseInt str 0;
          performance_score = (if actions_executed > 0 then ''0.800000'' else ''0.300000'');
          v2 = v1(''performance_score'' \<mapsto> performance_score)
      in ctx\<lparr>variables := v2(''reflection_complete'' \<mapsto> ''true'')\<rparr>)"

subsection \<open>Phase handlers\<close>

text \<open>The end of every handler: read the agent's state, set the next phase, write it back.\<close>

definition advance_phase ::
  "AgentId \<Rightarrow> (CognitiveState \<Rightarrow> CognitiveState) \<Rightarrow> Env \<Rightarrow> CognitiveMicrokernel
     \<Rightarrow> CognitiveMicrokernel" where
  "advance_phase ident f env k =
     (let state = getCognitiveState ident (env_now env) k
      in snd (updateCognitiveState ident (f state) (env_now env) k))"

definition processPerceptionPhase ::
  "AgentId \<Rightarrow> CognitiveContext \<Rightarrow> Env \<Rightarrow> CognitiveMicrokernel
     \<Rightarrow> CognitiveContext \<times> CognitiveMicrokernel" where
  "processPerceptionPhase ident ctx env k =
     (let ctx1 = gatherEnvironmentalData ident ctx env k
      in (ctx1, advance_phase ident (\<lambda>st. st\<lparr>current_phase := ATTENTION\<rparr>) env k))"

definition processAttentionPhase ::
  "AgentId \<Rightarrow> CognitiveContext \<Rightarrow> Env \<Rightarrow> CognitiveMicrokernel
     \<Rightarrow> CognitiveContext \<times> CognitiveMicrokernel" where
  "processAttentionPhase ident ctx env k =
     (let (ctx1, k1) = selectAttentionalFocus ident ctx k;
          k2 = k1\<lparr>agentspace := updateAttentionValues (agentspace k1)\<rparr>
      in (ctx1, advance_phase ident
                  (\<lambda>st. st\<lparr>current_phase := REASONING, current_focus := focus_atoms ctx1\<rparr>)
                  env k2))"

definition processReasoningPhase ::
  "AgentId \<Rightarrow> CognitiveContext \<Rightarrow> Env \<Rightarrow> CognitiveMicrokernel
     \<Rightarrow> CognitiveContext \<times> CognitiveMicrokernel" where
  "processReasoningPhase ident ctx env k =
     (let ctx1 = performReasoning ident ctx env k
      in (ctx1, advance_phase ident (\<lambda>st. st\<lparr>current_phase := PLANNING\<rparr>) env k))"

definition processPlanningPhase ::
  "AgentId \<Rightarrow> CognitiveContext \<Rightarrow> Env \<Rightarrow> CognitiveMicrokernel
     \<Rightarrow> CognitiveContext \<times> CognitiveMicrokernel" where
  "processPlanningPhase ident ctx env k =
     (let (ctx1, k1) = createActionPlans ident ctx env k
      in (ctx1, advance_phase ident (\<lambda>st. st\<lparr>current_phase := EXECUTION\<rparr>) env k1))"

definition processExecutionPhase ::
  "AgentId \<Rightarrow> CognitiveContext \<Rightarrow> Env \<Rightarrow> CognitiveMicrokernel
     \<Rightarrow> CognitiveContext \<times> CognitiveMicrokernel" where
  "processExecutionPhase ident ctx env k =
     (let ctx1 = executeActions ident ctx
      in (ctx1, advance_phase ident (\<lambda>st. st\<lparr>current_phase := LEARNING\<rparr>) env k))"

definition processLearningPhase ::
  "AgentId \<Rightarrow> CognitiveContext \<Rightarrow> Env \<Rightarrow> CognitiveMicrokernel
     \<Rightarrow> CognitiveContext \<times> CognitiveMicrokernel" where
  "processLearningPhase ident ctx env k =
     (let (ctx1, k1) = updateKnowledge ident ctx env k
      in (ctx1, advance_phase ident (\<lambda>st. st\<lparr>current_phase := REFLECTION\<rparr>) env k1))"

definition processReflectionPhase ::
  "AgentId \<Rightarrow> CognitiveContext \<Rightarrow> Env \<Rightarrow> CognitiveMicrokernel
     \<Rightarrow> CognitiveContext \<times> CognitiveMicrokernel" where
  "processReflectionPhase ident ctx env k =
     (let ctx1 = evaluatePerformance ident ctx
      in (ctx1, advance_phase ident (\<lambda>st. st\<lparr>current_phase := PERCEPTION\<rparr>) env k))"

subsection \<open>Task processing\<close>

definition executePhaseFunction ::
  "AgentId \<Rightarrow> CognitivePhase \<Rightarrow> CognitiveContext \<Rightarrow> Env \<Rightarrow> CognitiveMicrokernel
     \<Rightarrow> CognitiveContext \<times> CognitiveMicrokernel" where
  "executePhaseFunction ident ph ctx env k =
     (case ph of
        PERCEPTION \<Rightarrow> processPerceptionPhase ident ctx env k
      | ATTENTION \<Rightarrow> processAttentionPhase ident ctx env k
      | REASONING \<Rightarrow> processReasoningPhase ident ctx env k
      | PLANNING \<Rightarrow> processPlanningPhase ident ctx env k
      | EXECUTION \<Rightarrow> processExecutionPhase ident ctx env k
      | LEARNING \<Rightarrow> processLearningPhase ident ctx env k
      | REFLECTION \<Rightarrow> processReflectionPhase ident ctx env k)"

definition updateStats ::
  "CognitiveTask \<Rightarrow> bool \<Rightarrow> nat \<Rightarrow> CognitiveMicrokernel \<Rightarrow> CognitiveMicrokernel" where
  "updateStats task success duration k =
     (let st = stats k;
          st1 = (if success then st\<lparr>completed_tasks := completed_tasks st + 1\<rparr>
                 else st\<lparr>failed_tasks := failed_tasks st + 1\<rparr>)
      in k\<lparr>stats := st1\<lparr>total_processing_time := total_processing_time st1 + duration\<rparr>\<rparr>)"

text \<open>\<open>processTask\<close>: the context of a task is created here, from the task's parameters
  alone. No operation of the model throws, so the task always succeeds.\<close>

definition processTask :: "CognitiveTask \<Rightarrow> Env \<Rightarrow> CognitiveMicrokernel \<Rightarrow> CognitiveMicrokernel" where
  "processTask task env k =
     (let context = (new_CognitiveContext (task_agent_id task))\<lparr>variables := parameters task\<rparr>;
          (ctx1, k1) = executePhaseFunction (task_agent_id task) (phase task) context env k
      in updateStats task True (env_duration env) k1)"

text \<open>One turn of a worker: it takes \<open>task_queue_.top()\<close>, pops it and processes it. The
  top of a \<open>std::priority_queue\<close> is an element that is not less than any other; which of
  several such elements it is, is the library's choice, here the position \<open>i\<close> in the
  queue. \<open>None\<close>: the element at \<open>i\<close> cannot be the top.\<close>

definition can_pop :: "CognitiveTask list \<Rightarrow> nat \<Rightarrow> bool" where
  "can_pop q i = (i < length q \<and> list_all (\<lambda>u. \<not> task_less (q ! i) u) q)"

definition worker_step :: "nat \<Rightarrow> Env \<Rightarrow> CognitiveMicrokernel \<Rightarrow> CognitiveMicrokernel option" where
  "worker_step i env k =
     (let q = task_queue k
      in if can_pop q i
         then Some (processTask (q ! i) env (k\<lparr>task_queue := take i q @ drop (Suc i) q\<rparr>))
         else None)"

text \<open>A single worker taking one task after the other; the list gives, for each turn, the
  position it pops and what it reads from outside.\<close>

fun run_worker :: "(nat \<times> Env) list \<Rightarrow> CognitiveMicrokernel \<Rightarrow> CognitiveMicrokernel option" where
  "run_worker [] k = Some k"
| "run_worker ((i, env) # rest) k =
     (case worker_step i env k of None \<Rightarrow> None | Some k1 \<Rightarrow> run_worker rest k1)"

section \<open>Sequences of store operations\<close>

text \<open>The calls a client of the store can make, as data. A shared pointer always points to
  an object that exists, so a call that passes an address at which no object has been
  allocated cannot be made; such an operation leaves the store as it is.\<close>

datatype space_op =
    OpNewNode AtomType string string AtomId Timestamp
  | OpNewLink AtomType "AtomPtr list" string AtomId Timestamp
  | OpAddAtom AtomPtr
  | OpRemoveAtom AtomId
  | OpSetName nat string
  | OpSetTruthValue nat TruthValue
  | OpSetAttentionValue nat AttentionValue
  | OpSetMetadata nat string string
  | OpAddOutgoing nat AtomPtr
  | OpRemoveOutgoing nat AtomPtr
  | OpAddMemoryNode string string AtomId string Timestamp
  | OpAddTrustRelationship AgentId AgentId real AtomId Timestamp "real \<Rightarrow> string"
  | OpAddToAttentionalFocus AtomId
  | OpRemoveFromAttentionalFocus AtomId
  | OpUpdateAttentionValues
  | OpClear

definition ptr_ok :: "AgentSpace \<Rightarrow> AtomPtr \<Rightarrow> bool" where
  "ptr_ok s atom = (case atom of None \<Rightarrow> True | Some p \<Rightarrow> p < length (objects s))"

fun apply_op :: "space_op \<Rightarrow> AgentSpace \<Rightarrow> AgentSpace" where
  "apply_op (OpNewNode ty name v uuid now) s = snd (new_Node ty name v uuid now s)"
| "apply_op (OpNewLink ty out name uuid now) s =
     (if list_all (ptr_ok s) out then snd (new_Link ty out name uuid now s) else s)"
| "apply_op (OpAddAtom atom) s = (if ptr_ok s atom then snd (addAtom atom s) else s)"
| "apply_op (OpRemoveAtom ident) s = snd (removeAtom ident s)"
| "apply_op (OpSetName p name) s = setName p name s"
| "apply_op (OpSetTruthValue p tv) s = setTruthValue p tv s"
| "apply_op (OpSetAttentionValue p av) s = setAttentionValue p av s"
| "apply_op (OpSetMetadata p key v) s = setMetadata p key v s"
| "apply_op (OpAddOutgoing p atom) s = (if ptr_ok s atom then addOutgoing p atom s else s)"
| "apply_op (OpRemoveOutgoing p atom) s = removeOutgoing p atom s"
| "apply_op (OpAddMemoryNode content ty uuid short now) s =
     snd (addMemoryNode content ty uuid short now s)"
| "apply_op (OpAddTrustRelationship a1 a2 lvl uuid now fmt) s =
     snd (addTrustRelationship a1 a2 lvl uuid now fmt s)"
| "apply_op (OpAddToAttentionalFocus ident) s = addToAttentionalFocus ident s"
| "apply_op (OpRemoveFromAttentionalFocus ident) s = removeFromAttentionalFocus ident s"
| "apply_op OpUpdateAttentionValues s = updateAttentionValues s"
| "apply_op OpClear s = clear s"

definition run_ops :: "space_op list \<Rightarrow> AgentSpace \<Rightarrow> AgentSpace" where
  "run_ops ops s = fold apply_op ops s"

section \<open>Invariants and test data\<close>

text \<open>The bound and the absence of duplicates of the attentional focus.\<close>

definition focus_ok :: "AgentSpace \<Rightarrow> bool" where
  "focus_ok s = (length (attentional_focus s) \<le> 20 \<and> distinct (attentional_focus s))"

definition ids21 :: "AtomId list" where
  "ids21 = [''a01'', ''a02'', ''a03'', ''a04'', ''a05'', ''a06'', ''a07'', ''a08'', ''a09'', ''a10'',
            ''a11'', ''a12'', ''a13'', ''a14'', ''a15'', ''a16'', ''a17'', ''a18'', ''a19'', ''a20'',
            ''a21'']"

text \<open>The agent table has one entry per agent id, as an \<open>unordered_map\<close> has.\<close>

definition agents_ok :: "CognitiveMicrokernel \<Rightarrow> bool" where
  "agents_ok k = distinct (map fst (agent_states k))"

text \<open>A kernel on an empty store, and the same kernel after the registration of agent
  \<open>a1\<close> with one goal.\<close>

definition kernel0 :: CognitiveMicrokernel where
  "kernel0 = new_CognitiveMicrokernel (new_AgentSpace ''space'') ASYNCHRONOUS 2 0"

definition kernel1 :: CognitiveMicrokernel where
  "kernel1 = snd (addCognitiveAgent ''a1'' [''g1''] Map.empty 1 kernel0)"


text \<open>A store with two agent nodes, the same store with a trust link between them, and that
  store after the removal of the first agent node.\<close>

definition space_ab :: AgentSpace where
  "space_ab = run_ops [OpNewNode AGENT_NODE ''alice'' [] ''A'' 0, OpAddAtom (Some 0),
                       OpNewNode AGENT_NODE ''bob'' [] ''B'' 0, OpAddAtom (Some 1)]
                      (new_AgentSpace ''space'')"

definition space_link :: AgentSpace where
  "space_link = snd (addTrustRelationship ''A'' ''B'' 0.8 ''L'' 1 (\<lambda>x. ''0.800000'') space_ab)"

definition space_dangling :: AgentSpace where
  "space_dangling = snd (removeAtom ''A'' space_link)"


text \<open>Consistency of the atom map: one entry per id, and every entry maps the id of an
  allocated object to that object.\<close>

definition store_ok :: "AgentSpace \<Rightarrow> bool" where
  "store_ok s =
     (distinct (map fst (atoms s))
      \<and> list_all (\<lambda>(i, p). p < length (objects s) \<and> atom_id (objects s ! p) = i) (atoms s))"

text \<open>What one decay sweep does to an atom object.\<close>

definition decay_atom :: "Atom \<Rightarrow> Atom" where
  "decay_atom a = a\<lparr>attention_value := decay (attention_value a)\<rparr>"

text \<open>A store that holds one memory node.\<close>

definition space_mem :: AgentSpace where
  "space_mem = run_ops [OpAddMemoryNode ''met bob'' ''episodic'' ''M'' ''0a1b2c3d'' 0]
                       (new_AgentSpace ''space'')"


text \<open>What a worker reads from outside while it processes a task, the kernel after one
  \<open>runCognitiveCycle\<close> for the registered agent \<open>a1\<close> (which has one observer), and a kernel
  with an agent that has four goals.\<close>

definition env0 :: Env where
  "env0 = \<lparr>env_now = 2, env_uuid = ''M1'', env_short = ''deadbeef'', env_duration = 0\<rparr>"

definition kernel2 :: CognitiveMicrokernel where
  "kernel2 = runCognitiveCycle ''a1'' (\<lambda>ph. ''0000000'' @ to_string (phase_index ph)) 2
               (registerCallback ''a1'' 0 kernel1)"

definition kernel4 :: CognitiveMicrokernel where
  "kernel4 = snd (addCognitiveAgent ''a4'' [''g1'', ''g2'', ''g3'', ''g4''] Map.empty 1 kernel0)"

text \<open>The Planning handler and then the Execution handler, called on one and the same
  scratch context.\<close>

definition plan_then_execute ::
  "AgentId \<Rightarrow> CognitiveContext \<Rightarrow> Env \<Rightarrow> CognitiveMicrokernel
     \<Rightarrow> CognitiveContext \<times> CognitiveMicrokernel" where
  "plan_then_execute ident ctx env k =
     (let (ctx1, k1) = processPlanningPhase ident ctx env k
      in processExecutionPhase ident ctx1 env k1)"

text \<open>The value of a context variable, the empty string when the variable is absent.\<close>

definition var_or_empty :: "(string \<rightharpoonup> string) \<Rightarrow> string \<Rightarrow> string" where
  "var_or_empty vars key = (case vars key of None \<Rightarrow> [] | Some v \<Rightarrow> v)"


text \<open>Index consistency: an id is in the type-index set of a type exactly when the store
  holds an atom under that id and the atom has that type, and likewise for names. So the id
  of a live atom is in the index sets of its current type and name and in no other, and an
  id that is not in the store is in no index set.\<close>

definition index_ok :: "AgentSpace \<Rightarrow> bool" where
  "index_ok s =
     ((\<forall>i ty. i \<in> index_at (atoms_by_type s) ty \<longleftrightarrow>
               (\<exists>p. map_of (atoms s) i = Some p \<and> atom_type (objects s ! p) = ty))
      \<and> (\<forall>i n. i \<in> index_at (atoms_by_name s) n \<longleftrightarrow>
               (\<exists>p. map_of (atoms s) i = Some p \<and> atom_name (objects s ! p) = n)))"

text \<open>No two atom objects carry the same id, and an id the generator has not produced
  before.\<close>

definition ids_unique :: "AgentSpace \<Rightarrow> bool" where
  "ids_unique s = distinct (map atom_id (objects s))"

definition space_inv :: "AgentSpace \<Rightarrow> bool" where
  "space_inv s = (store_ok s \<and> index_ok s \<and> ids_unique s)"

definition unused_id :: "AtomId \<Rightarrow> AgentSpace \<Rightarrow> bool" where
  "unused_id uuid s = (uuid \<notin> set (map atom_id (objects s)))"

text \<open>Operation sequences in which the generator never repeats an id and \<open>setName\<close> is
  applied only to atoms that are not in the store.\<close>

fun op_allowed :: "space_op \<Rightarrow> AgentSpace \<Rightarrow> bool" where
  "op_allowed (OpNewNode ty name v uuid now) s = unused_id uuid s"
| "op_allowed (OpNewLink ty out name uuid now) s = unused_id uuid s"
| "op_allowed (OpAddMemoryNode content ty uuid short now) s = unused_id uuid s"
| "op_allowed (OpAddTrustRelationship a1 a2 lvl uuid now fmt) s = unused_id uuid s"
| "op_allowed (OpSetName p name) s = (p \<notin> set (getAtoms s))"
| "op_allowed op s = True"

fun ops_allowed :: "space_op list \<Rightarrow> AgentSpace \<Rightarrow> bool" where
  "ops_allowed [] s = True"
| "ops_allowed (op # ops) s = (op_allowed op s \<and> ops_allowed ops (apply_op op s))"


text \<open>A store with one node that is renamed after it was added, and that store after the
  node's removal.\<close>

definition space_renamed :: AgentSpace where
  "space_renamed = run_ops [OpNewNode NODE ''x'' [] ''id1'' 0, OpAddAtom (Some 0), OpSetName 0 ''y'']
                           (new_AgentSpace ''space'')"

definition space_removed :: AgentSpace where
  "space_removed = run_ops [OpRemoveAtom ''id1''] space_renamed"


section \<open>Properties\<close>

section \<open>The attentional focus\<close>

subsection \<open>Operations other than the focus operations leave the focus alone\<close>

lemma focus_modify [simp]: "attentional_focus (modify p f s) = attentional_focus s"
  by (simp add: modify_def)

lemma focus_alloc [simp]: "attentional_focus (snd (alloc a s)) = attentional_focus s"
  by (simp add: alloc_def)

lemma focus_addAtom [simp]: "attentional_focus (snd (addAtom atom s)) = attentional_focus s"
  by (simp add: addAtom_def addAtomToIndices_def Let_def split: option.splits)

lemma focus_removeAtom [simp]: "attentional_focus (snd (removeAtom ident s)) = attentional_focus s"
  by (simp add: removeAtom_def removeAtomFromIndices_def Let_def split: option.splits)

lemma focus_fold_setAttention [simp]:
  "attentional_focus (fold (\<lambda>p s'. setAttentionValue p (g p s') s') ps s) = attentional_focus s"
  by (induction ps arbitrary: s) (simp_all add: setAttentionValue_def)

lemma focus_updateAttentionValues [simp]:
  "attentional_focus (updateAttentionValues s) = attentional_focus s"
  unfolding updateAttentionValues_def by (rule focus_fold_setAttention)

lemma focus_addMemoryNode [simp]:
  "attentional_focus (snd (addMemoryNode c ty uuid short now s)) = attentional_focus s"
  by (simp add: addMemoryNode_def new_Node_def setMetadata_def setAttentionValue_def
      Let_def split_beta)

lemma focus_addTrustRelationship [simp]:
  "attentional_focus (snd (addTrustRelationship a1 a2 lvl uuid now fmt s)) = attentional_focus s"
  by (simp add: addTrustRelationship_def new_Link_def setMetadata_def setTruthValue_def
      Let_def split_beta split: option.splits)

lemma length_removeAll_bound: "length xs \<le> n \<Longrightarrow> length (removeAll x xs) \<le> n"
  by (rule order_trans[OF length_removeAll_less_eq])

lemma focus_ok_add: "focus_ok s \<Longrightarrow> focus_ok (addToAttentionalFocus x s)"
proof -
  assume ok: "focus_ok s"
  define g where "g = removeAll x (attentional_focus s) @ [x]"
  have len: "length g \<le> 21"
    using ok by (simp add: g_def focus_ok_def length_removeAll_bound)
  have dist: "distinct g"
    using ok by (simp add: g_def focus_ok_def distinct_removeAll)
  have "length (tl g) \<le> 20" using len by simp
  moreover have "distinct (tl g)" using dist by (rule distinct_tl)
  ultimately show ?thesis
    using len dist by (simp add: focus_ok_def addToAttentionalFocus_def Let_def g_def)
qed

lemma focus_ok_apply: "focus_ok s \<Longrightarrow> focus_ok (apply_op op s)"
proof (cases op)
  case (OpAddToAttentionalFocus x)
  assume "focus_ok s"
  then show ?thesis using OpAddToAttentionalFocus by (simp add: focus_ok_add)
next
  case (OpRemoveFromAttentionalFocus x)
  assume "focus_ok s"
  then show ?thesis
    using OpRemoveFromAttentionalFocus
    by (simp add: focus_ok_def removeFromAttentionalFocus_def distinct_removeAll
        length_removeAll_bound)
qed (simp_all add: focus_ok_def new_Node_def new_Link_def setName_def setTruthValue_def
      setAttentionValue_def setMetadata_def addOutgoing_def removeOutgoing_def clear_def
      split: option.splits)


lemma focus_ok_run: "focus_ok s \<Longrightarrow> focus_ok (run_ops ops s)"
  unfolding run_ops_def by (induction ops arbitrary: s) (simp_all add: focus_ok_apply)

lemma focus_ok_new: "focus_ok (new_AgentSpace name)"
  by (simp add: focus_ok_def new_AgentSpace_def)

lemma focus_evict_oldest:
  assumes "length (attentional_focus s) = 20" and "x \<notin> set (attentional_focus s)"
  shows "attentional_focus (addToAttentionalFocus x s) = tl (attentional_focus s) @ [x]"
proof -
  have "attentional_focus s \<noteq> []" using assms(1) by auto
  then show ?thesis using assms by (simp add: addToAttentionalFocus_def Let_def)
qed

text \<open>C7: in every state the store reaches from the empty one, by any sequence of
  operations, the attentional focus has at most 20 entries and no duplicate.
  \<open>addToAttentionalFocus\<close> removes every occurrence of the id, appends the id, and drops the
  front entry when the list has grown beyond 20; so adding an id that is not in a full focus
  evicts the oldest entry, whatever the importance of the atoms.\<close>

theorem C7_attentional_focus:
  "length (attentional_focus (run_ops ops (new_AgentSpace name))) \<le> 20
   \<and> distinct (attentional_focus (run_ops ops (new_AgentSpace name)))
   \<and> attentional_focus (addToAttentionalFocus x s) =
       (let f = removeAll x (attentional_focus s) @ [x] in if 20 < length f then tl f else f)
   \<and> (length (attentional_focus s) = 20 \<and> x \<notin> set (attentional_focus s) \<longrightarrow>
        attentional_focus (addToAttentionalFocus x s) = tl (attentional_focus s) @ [x])"
proof -
  have "focus_ok (run_ops ops (new_AgentSpace name))"
    by (rule focus_ok_run[OF focus_ok_new])
  then show ?thesis
    by (simp add: focus_ok_def focus_evict_oldest) (simp add: addToAttentionalFocus_def Let_def)
qed

lemma run20: "attentional_focus (run_ops (map OpAddToAttentionalFocus (butlast ids21)) (new_AgentSpace ''t'')) = butlast ids21"
  by (simp add: run_ops_def ids21_def new_AgentSpace_def addToAttentionalFocus_def Let_def)

theorem C7_attentional_focus_witness:
  "length (attentional_focus (run_ops (map OpAddToAttentionalFocus (butlast ids21)) (new_AgentSpace ''t''))) = 20
   \<and> ''a21'' \<notin> set (attentional_focus (run_ops (map OpAddToAttentionalFocus (butlast ids21)) (new_AgentSpace ''t'')))
   \<and> attentional_focus (addToAttentionalFocus ''a21''
         (run_ops (map OpAddToAttentionalFocus (butlast ids21)) (new_AgentSpace ''t''))) = tl ids21"
  using C7_attentional_focus[of "[]" "''t''" "''a21''"
          "run_ops (map OpAddToAttentionalFocus (butlast ids21)) (new_AgentSpace ''t'')"]
  unfolding run20 by (simp add: ids21_def)


section \<open>The agent table\<close>

lemma count_list_distinct_mem: "distinct xs \<Longrightarrow> x \<in> set xs \<Longrightarrow> count_list xs x = 1"
  by (induction xs) auto

lemma map_of_Some_key: "map_of al x = Some y \<Longrightarrow> x \<in> fst ` set al"
  by (induction al) (auto split: if_splits)

lemma agents_ok_new: "agents_ok (new_CognitiveMicrokernel sp mode n now)"
  by (simp add: agents_ok_def new_CognitiveMicrokernel_def)

lemma agents_ok_addCognitiveAgent:
  "agents_ok k \<Longrightarrow> agents_ok (snd (addCognitiveAgent ident gs bs now k))"
  by (simp add: agents_ok_def addCognitiveAgent_def distinct_update Let_def split: option.splits)

lemma agents_ok_removeCognitiveAgent:
  "agents_ok k \<Longrightarrow> agents_ok (snd (removeCognitiveAgent ident k))"
  by (simp add: agents_ok_def removeCognitiveAgent_def distinct_delete split: option.splits)

lemma agent_states_notifyCallbacks [simp]:
  "agent_states (notifyCallbacks ident st k) = agent_states k"
  by (simp add: notifyCallbacks_def split: option.splits)

lemma agents_ok_updateCognitiveState:
  "agents_ok k \<Longrightarrow> agents_ok (snd (updateCognitiveState ident st now k))"
  by (simp add: agents_ok_def updateCognitiveState_def distinct_update Let_def split: option.splits)

lemma agents_ok_addGoal: "agents_ok k \<Longrightarrow> agents_ok (addGoal ident g now k)"
  by (simp add: agents_ok_def addGoal_def distinct_update split: option.splits)

lemma agents_ok_updateBelief: "agents_ok k \<Longrightarrow> agents_ok (updateBelief ident key v now k)"
  by (simp add: agents_ok_def updateBelief_def distinct_update split: option.splits)

text \<open>C9: when the agent id is already in the agent table, \<open>addCognitiveAgent\<close> with any
  goals and beliefs returns the stored state and leaves the kernel, hence the stored state,
  unchanged; \<open>getActiveAgents\<close> lists the id exactly once before and after the call.\<close>

theorem C9_addCognitiveAgent_idempotent:
  assumes "agents_ok k" and "map_of (agent_states k) ident = Some st"
  shows "addCognitiveAgent ident gs bs now k = (st, k)
         \<and> getCognitiveState ident now' (snd (addCognitiveAgent ident gs bs now k)) = st
         \<and> count_list (getActiveAgents k) ident = 1
         \<and> count_list (getActiveAgents (snd (addCognitiveAgent ident gs bs now k))) ident = 1"
proof -
  have same: "addCognitiveAgent ident gs bs now k = (st, k)"
    using assms(2) by (simp add: addCognitiveAgent_def)
  have "ident \<in> set (getActiveAgents k)"
    using assms(2) by (simp add: getActiveAgents_def map_of_Some_key)
  moreover have "distinct (getActiveAgents k)"
    using assms(1) by (simp add: agents_ok_def getActiveAgents_def)
  ultimately have "count_list (getActiveAgents k) ident = 1"
    by (simp add: count_list_distinct_mem)
  then show ?thesis
    using same assms(2) by (simp add: getCognitiveState_def)
qed

lemma kernel1_states:
  "agent_states kernel1 =
     [(''a1'', \<lparr>agent_id = ''a1'', current_phase = PERCEPTION, goals = [''g1''], beliefs = Map.empty,
              intentions = [], current_focus = [], last_update = 1\<rparr>)]"
  by (simp add: kernel1_def kernel0_def addCognitiveAgent_def new_CognitiveMicrokernel_def
      new_CognitiveState_def CognitiveState_default_def Let_def)

theorem C9_addCognitiveAgent_idempotent_witness:
  "agents_ok kernel1
   \<and> map_of (agent_states kernel1) ''a1'' = Some (fst (addCognitiveAgent ''a1'' [''g1''] Map.empty 1 kernel0))
   \<and> addCognitiveAgent ''a1'' [''other''] [''b'' \<mapsto> ''c''] 2 kernel1
       = (fst (addCognitiveAgent ''a1'' [''g1''] Map.empty 1 kernel0), kernel1)
   \<and> getActiveAgents kernel1 = [''a1'']"
proof -
  have ok: "agents_ok kernel1" by (simp add: agents_ok_def kernel1_states)
  have st: "map_of (agent_states kernel1) ''a1''
            = Some (fst (addCognitiveAgent ''a1'' [''g1''] Map.empty 1 kernel0))"
    by (simp add: kernel1_states)
       (simp add: kernel0_def addCognitiveAgent_def new_CognitiveMicrokernel_def
          new_CognitiveState_def CognitiveState_default_def Let_def)
  show ?thesis
    using C9_addCognitiveAgent_idempotent[OF ok st, of "[''other'']" "[''b'' \<mapsto> ''c'']" 2 0] ok st
    by (simp add: getActiveAgents_def kernel1_states)
qed

text \<open>C10: for an agent id that is not in the agent table \<open>getCognitiveState\<close> returns the
  default-constructed state: empty agent id, phase Perception, no goals, beliefs, intentions
  or focus. The result is a plain state, with no error or absence value; it differs from the
  state a registration of that agent without goals and beliefs would return at the same time
  only in the empty \<open>agent_id\<close>.\<close>

theorem C10_getCognitiveState_unknown:
  assumes "\<not> hasAgent ident k"
  shows "getCognitiveState ident now k = CognitiveState_default now
         \<and> agent_id (getCognitiveState ident now k) = []
         \<and> current_phase (getCognitiveState ident now k) = PERCEPTION
         \<and> goals (getCognitiveState ident now k) = []
         \<and> beliefs (getCognitiveState ident now k) = Map.empty
         \<and> intentions (getCognitiveState ident now k) = []
         \<and> current_focus (getCognitiveState ident now k) = []
         \<and> getCognitiveState ident now k
             = (fst (addCognitiveAgent ident [] Map.empty now k))\<lparr>agent_id := []\<rparr>"
  using assms
  by (simp add: hasAgent_def getCognitiveState_def CognitiveState_default_def
      addCognitiveAgent_def new_CognitiveState_def Let_def)

theorem C10_getCognitiveState_unknown_witness:
  "\<not> hasAgent ''ghost'' kernel1
   \<and> getCognitiveState ''ghost'' 5 kernel1 =
       \<lparr>agent_id = [], current_phase = PERCEPTION, goals = [], beliefs = Map.empty,
        intentions = [], current_focus = [], last_update = 5\<rparr>"
proof -
  have h: "\<not> hasAgent ''ghost'' kernel1" by (simp add: hasAgent_def kernel1_states)
  show ?thesis
    using C10_getCognitiveState_unknown[OF h, of 5] h by (simp add: CognitiveState_default_def)
qed


section \<open>The store\<close>

lemmas store_defs =
  new_Node_def new_Link_def alloc_def new_Atom_def addAtom_def addAtomToIndices_def
  removeAtom_def removeAtomFromIndices_def index_insert_def index_erase_def index_at_def
  modify_def setName_def setTruthValue_def setAttentionValue_def setMetadata_def getAtom_def
  ptr_ok_def new_AgentSpace_def TruthValue_default_def AttentionValue_default_def

lemma space_ab_atoms: "atoms space_ab = [(''A'', 0), (''B'', 1)]"
  by (simp add: space_ab_def run_ops_def store_defs Let_def)

lemma space_ab_length: "length (objects space_ab) = 2"
  by (simp add: space_ab_def run_ops_def store_defs Let_def)

lemma clamp_range: "0 \<le> clamp v 0 1 \<and> clamp v 0 1 \<le> 1"
  by (simp add: clamp_def)

lemma clamp_outside: "v < 0 \<or> 1 < v \<Longrightarrow> clamp v 0 1 = (if v < 0 then 0 else 1)"
  by (auto simp: clamp_def)

lemma map_of_update_same: "map_of (AList.update k v al) k = Some v"
  by (simp add: update_conv')

lemma addTrustRelationship_live:
  assumes "getAtom a1 s = Some p1" and "getAtom a2 s = Some p2"
  shows "fst (addTrustRelationship a1 a2 lvl uuid now fmt s) = Some (length (objects s))"
    and "getAtom uuid (snd (addTrustRelationship a1 a2 lvl uuid now fmt s)) = Some (length (objects s))"
    and "truth_value (objects (snd (addTrustRelationship a1 a2 lvl uuid now fmt s)) ! length (objects s))
           = mk_TruthValue lvl 0.5"
    and "kind (objects (snd (addTrustRelationship a1 a2 lvl uuid now fmt s)) ! length (objects s))
           = Link [Some p1, Some p2]"
  using assms
  by (simp_all add: addTrustRelationship_def new_Link_def alloc_def new_Atom_def addAtom_def
      addAtomToIndices_def modify_def setTruthValue_def setMetadata_def getAtom_def Let_def
      map_of_update_same)

text \<open>C5 (amended): a trust value outside [0,1] passed to \<open>addTrustRelationship\<close> for two
  atoms of the store is not rejected: the call returns the new link, the link is stored under
  its id, and its truth strength is the value clamped to the nearer bound (0 below the
  interval, 1 above it), as the \<open>TruthValue\<close> constructor clamps every strength. Adding a
  null atom returns null and leaves the store as it is; there is no error value.\<close>

theorem C5_out_of_range_is_clamped:
  assumes "lvl < 0 \<or> 1 < lvl" and "getAtom a1 s = Some p1" and "getAtom a2 s = Some p2"
  shows "fst (addTrustRelationship a1 a2 lvl uuid now fmt s) = Some (length (objects s))
         \<and> getAtom uuid (snd (addTrustRelationship a1 a2 lvl uuid now fmt s))
             = Some (length (objects s))
         \<and> truth_value (objects (snd (addTrustRelationship a1 a2 lvl uuid now fmt s))
                          ! length (objects s))
             = \<lparr>strength = (if lvl < 0 then 0 else 1), confidence = 0.5\<rparr>
         \<and> mk_TruthValue lvl c = \<lparr>strength = (if lvl < 0 then 0 else 1), confidence = clamp c 0 1\<rparr>
         \<and> addAtom None s = (None, s)"
  using assms addTrustRelationship_live[OF assms(2,3), where lvl=lvl and uuid=uuid and now=now and fmt=fmt]
  by (auto simp: mk_TruthValue_def clamp_def addAtom_def)

theorem C5_out_of_range_is_clamped_witness:
  "((1.5::real) < 0 \<or> 1 < (1.5::real))
   \<and> getAtom ''A'' space_ab = Some 0 \<and> getAtom ''B'' space_ab = Some 1
   \<and> fst (addTrustRelationship ''A'' ''B'' 1.5 ''L'' 1 (\<lambda>x. ''1.500000'') space_ab) = Some 2
   \<and> strength (truth_value (objects (snd (addTrustRelationship ''A'' ''B'' 1.5 ''L'' 1
                                (\<lambda>x. ''1.500000'') space_ab)) ! 2)) = 1"
proof -
  have a: "getAtom ''A'' space_ab = Some 0" by (simp add: getAtom_def space_ab_atoms)
  have b: "getAtom ''B'' space_ab = Some 1" by (simp add: getAtom_def space_ab_atoms)
  have r: "(1.5::real) < 0 \<or> 1 < (1.5::real)" by simp
  show ?thesis
    using C5_out_of_range_is_clamped[OF r a b, where uuid="''L''" and now=1
            and fmt="\<lambda>x. ''1.500000''" and c=0] a b
    by (simp add: space_ab_length)
qed

text \<open>The claim as stated fails: with trust level 1.5 the call returns a link, stores it, and
  the stored strength 1 and the metadata entry are derived from the argument.\<close>

theorem C5_counterexample:
  "fst (addTrustRelationship ''A'' ''B'' 1.5 ''L'' 1 (\<lambda>x. ''1.500000'') space_ab) \<noteq> None
   \<and> getAtom ''L'' (snd (addTrustRelationship ''A'' ''B'' 1.5 ''L'' 1 (\<lambda>x. ''1.500000'') space_ab))
       = Some 2
   \<and> strength (truth_value (objects (snd (addTrustRelationship ''A'' ''B'' 1.5 ''L'' 1
                                (\<lambda>x. ''1.500000'') space_ab)) ! 2)) = 1
   \<and> metadata (objects (snd (addTrustRelationship ''A'' ''B'' 1.5 ''L'' 1
                                (\<lambda>x. ''1.500000'') space_ab)) ! 2) ''trust_level''
       = Some ''1.500000''"
  by (simp add: addTrustRelationship_def space_ab_def run_ops_def store_defs Let_def
      mk_TruthValue_def clamp_def)


lemma map_of_delete_same: "map_of (AList.delete k al) k = None"
  by (simp add: delete_conv')

lemma map_of_delete_other: "k' \<noteq> k \<Longrightarrow> map_of (AList.delete k al) k' = map_of al k'"
  by (simp add: delete_conv')

lemma index_at_erase:
  "y \<noteq> x \<Longrightarrow> y \<in> index_at (index_erase m k x) k' \<longleftrightarrow> y \<in> index_at m k'"
  by (simp add: index_at_def index_erase_def)

text \<open>C2 (amended): let a link be in the store and let an atom object \<open>A\<close>, other than the
  link, be in its outgoing list. If the store holds \<open>A\<close> under its id, \<open>removeAtom\<close> of that
  id returns true, changes no atom object (the link keeps its outgoing list, which still
  points to the object of \<open>A\<close>), leaves the link in the store and in its index sets, and
  afterwards \<open>getAtom\<close> of the id is null. If the id of \<open>A\<close> is not in the store,
  \<open>removeAtom\<close> returns false and changes nothing.\<close>

theorem C2_remove_referenced_atom:
  assumes "getAtom lid s = Some lp"
    and "kind (objects s ! lp) = Link out"
    and "Some ap \<in> set out"
    and "aid = atom_id (objects s ! ap)"
    and "aid \<noteq> lid"
  shows "(getAtom aid s = Some ap \<longrightarrow>
            fst (removeAtom aid s) = True
            \<and> objects (snd (removeAtom aid s)) = objects s
            \<and> getAtom lid (snd (removeAtom aid s)) = Some lp
            \<and> kind (objects (snd (removeAtom aid s)) ! lp) = Link out
            \<and> (\<forall>ty. lid \<in> index_at (atoms_by_type (snd (removeAtom aid s))) ty
                      \<longleftrightarrow> lid \<in> index_at (atoms_by_type s) ty)
            \<and> (\<forall>n. lid \<in> index_at (atoms_by_name (snd (removeAtom aid s))) n
                      \<longleftrightarrow> lid \<in> index_at (atoms_by_name s) n)
            \<and> getAtom aid (snd (removeAtom aid s)) = None)
         \<and> (getAtom aid s = None \<longrightarrow> removeAtom aid s = (False, s))"
proof (intro conjI impI)
  assume "getAtom aid s = None"
  then show "removeAtom aid s = (False, s)" by (simp add: removeAtom_def getAtom_def)
next
  assume live: "getAtom aid s = Some ap"
  then have q: "map_of (atoms s) aid = Some ap" by (simp add: getAtom_def)
  have r: "removeAtom aid s =
             (True, (removeAtomFromIndices ap s)\<lparr>atoms := AList.delete aid (atoms s)\<rparr>)"
    using q by (simp add: removeAtom_def removeAtomFromIndices_def Let_def)
  have neq: "atom_id (objects s ! ap) \<noteq> lid" using assms(4,5) by simp
  show "fst (removeAtom aid s) = True" by (simp add: r)
  show "objects (snd (removeAtom aid s)) = objects s"
    by (simp add: r removeAtomFromIndices_def Let_def)
  show "getAtom lid (snd (removeAtom aid s)) = Some lp"
    using assms(1,5) by (simp add: r getAtom_def map_of_delete_other)
  show "kind (objects (snd (removeAtom aid s)) ! lp) = Link out"
    using assms(2) by (simp add: r removeAtomFromIndices_def Let_def)
  show "\<forall>ty. lid \<in> index_at (atoms_by_type (snd (removeAtom aid s))) ty
              \<longleftrightarrow> lid \<in> index_at (atoms_by_type s) ty"
    unfolding r using neq
    by (simp add: removeAtomFromIndices_def Let_def index_at_def index_erase_def)
  show "\<forall>n. lid \<in> index_at (atoms_by_name (snd (removeAtom aid s))) n
              \<longleftrightarrow> lid \<in> index_at (atoms_by_name s) n"
    unfolding r using neq
    by (simp add: removeAtomFromIndices_def Let_def index_at_def index_erase_def)
  show "getAtom aid (snd (removeAtom aid s)) = None"
    by (simp add: r getAtom_def map_of_delete_same)
qed

lemma space_ab_objects:
  "objects space_ab = [new_Atom ''A'' 0 AGENT_NODE ''alice'' (Node []), new_Atom ''B'' 0 AGENT_NODE ''bob'' (Node [])]"
  by (simp add: space_ab_def run_ops_def new_Node_def alloc_def addAtom_def addAtomToIndices_def
      ptr_ok_def new_AgentSpace_def Let_def)

lemma space_link_atoms: "atoms space_link = [(''A'', 0), (''B'', 1), (''L'', 2)]"
  by (simp add: space_link_def addTrustRelationship_def getAtom_def space_ab_atoms
      new_Link_def alloc_def addAtom_def addAtomToIndices_def setTruthValue_def setMetadata_def
      modify_def Let_def space_ab_objects new_Atom_def)

lemma space_link_objects:
  "objects space_link = objects space_ab @
     [(new_Atom ''L'' 1 TRUST_LINK [] (Link [Some 0, Some 1]))
        \<lparr>truth_value := mk_TruthValue 0.8 0.5, metadata := [''trust_level'' \<mapsto> ''0.800000'']\<rparr>]"
  by (simp add: space_link_def addTrustRelationship_def getAtom_def space_ab_atoms
      new_Link_def alloc_def addAtom_def addAtomToIndices_def setTruthValue_def setMetadata_def
      modify_def Let_def space_ab_objects new_Atom_def)

lemma space_dangling_atoms: "atoms space_dangling = [(''B'', 1), (''L'', 2)]"
  by (simp add: space_dangling_def removeAtom_def removeAtomFromIndices_def space_link_atoms
      Let_def AList.delete_eq)

lemma space_dangling_objects: "objects space_dangling = objects space_link"
  by (simp add: space_dangling_def removeAtom_def removeAtomFromIndices_def space_link_atoms Let_def)

theorem C2_remove_referenced_atom_witness:
  "getAtom ''L'' space_link = Some 2
   \<and> kind (objects space_link ! 2) = Link [Some 0, Some 1]
   \<and> ''A'' = atom_id (objects space_link ! 0)
   \<and> getAtom ''A'' space_link = Some 0
   \<and> fst (removeAtom ''A'' space_link) = True
   \<and> getAtom ''L'' (snd (removeAtom ''A'' space_link)) = Some 2
   \<and> kind (objects (snd (removeAtom ''A'' space_link)) ! 2) = Link [Some 0, Some 1]
   \<and> atom_name (objects (snd (removeAtom ''A'' space_link)) ! 0) = ''alice''
   \<and> getAtom ''A'' (snd (removeAtom ''A'' space_link)) = None
   \<and> getAtom ''A'' space_dangling = None
   \<and> fst (removeAtom ''A'' space_dangling) = False"
proof -
  have l: "getAtom ''L'' space_link = Some 2" by (simp add: getAtom_def space_link_atoms)
  have k: "kind (objects space_link ! 2) = Link [Some 0, Some 1]"
    by (simp add: space_link_objects space_ab_objects new_Atom_def)
  have m: "Some 0 \<in> set [Some 0, Some (1::nat)]" by simp
  have a: "''A'' = atom_id (objects space_link ! 0)"
    by (simp add: space_link_objects space_ab_objects new_Atom_def)
  have n: "''A'' \<noteq> ''L''" by simp
  have live: "getAtom ''A'' space_link = Some 0" by (simp add: getAtom_def space_link_atoms)
  have o: "atom_name (objects space_link ! 0) = ''alice''"
    by (simp add: space_link_objects space_ab_objects new_Atom_def)
  have l': "getAtom ''L'' space_dangling = Some 2"
    by (simp add: getAtom_def space_dangling_atoms)
  have k': "kind (objects space_dangling ! 2) = Link [Some 0, Some 1]"
    using k by (simp add: space_dangling_objects)
  have a': "''A'' = atom_id (objects space_dangling ! 0)"
    using a by (simp add: space_dangling_objects)
  have gone: "getAtom ''A'' space_dangling = None"
    by (simp add: getAtom_def space_dangling_atoms)
  show ?thesis
    using C2_remove_referenced_atom[OF l k m a n] C2_remove_referenced_atom[OF l' k' m a' n]
      l k a live o gone
    by simp
qed

text \<open>The claim as stated fails for an outgoing entry whose atom has already been removed:
  the atom still appears in the outgoing list of the link, and \<open>removeAtom\<close> of its id
  does not succeed.\<close>

theorem C2_counterexample:
  "getAtom ''L'' space_dangling = Some 2
   \<and> Some 0 \<in> set (outgoing (kind (objects space_dangling ! 2)))
   \<and> atom_id (objects space_dangling ! 0) = ''A''
   \<and> removeAtom ''A'' space_dangling = (False, space_dangling)"
  by (simp add: getAtom_def removeAtom_def space_dangling_atoms space_dangling_objects
      space_link_objects space_ab_objects new_Atom_def)


section \<open>Attention decay\<close>

lemma store_ok_ptrs:
  assumes "store_ok s"
  shows "distinct (getAtoms s)" and "\<forall>p \<in> set (getAtoms s). p < length (objects s)"
proof -
  have ent: "\<forall>(i, p) \<in> set (atoms s). p < length (objects s) \<and> atom_id (objects s ! p) = i"
    using assms by (simp add: store_ok_def list_all_iff)
  have "inj_on snd (set (atoms s))"
  proof (rule inj_onI)
    fix x y assume x: "x \<in> set (atoms s)" and y: "y \<in> set (atoms s)" and e: "snd x = snd y"
    have "atom_id (objects s ! snd x) = fst x" using ent x by (cases x) auto
    moreover have "atom_id (objects s ! snd y) = fst y" using ent y by (cases y) auto
    ultimately show "x = y" using e by (simp add: prod_eq_iff)
  qed
  moreover have "distinct (atoms s)"
    using assms by (simp add: store_ok_def distinct_map)
  ultimately show "distinct (getAtoms s)" by (simp add: getAtoms_def distinct_map)
  show "\<forall>p \<in> set (getAtoms s). p < length (objects s)"
    using ent by (auto simp: getAtoms_def)
qed

lemma decay_step: "setAttentionValue p (decay (attention_value (objects s ! p))) s = modify p decay_atom s"
  by (simp add: setAttentionValue_def modify_def decay_atom_def)

lemma updateAttentionValues_fold:
  "updateAttentionValues s = fold (\<lambda>p. modify p decay_atom) (getAtoms s) s"
  by (simp add: updateAttentionValues_def decay_step)

lemma fold_modify_other: "(fold (\<lambda>p. modify p f) ps s)\<lparr>objects := os\<rparr> = s\<lparr>objects := os\<rparr>"
  by (induction ps arbitrary: s) (auto simp: modify_def)

lemma fold_modify_rest: "(fold (\<lambda>p. modify p f) ps s)\<lparr>objects := objects s\<rparr> = s"
  by (simp add: fold_modify_other)

lemma fold_modify_length: "length (objects (fold (\<lambda>p. modify p f) ps s)) = length (objects s)"
  by (induction ps arbitrary: s) (auto simp: modify_def)

lemma fold_modify_nth:
  "distinct ps \<Longrightarrow> j < length (objects s) \<Longrightarrow>
   objects (fold (\<lambda>p. modify p f) ps s) ! j = (if j \<in> set ps then f (objects s ! j) else objects s ! j)"
proof (induction ps arbitrary: s)
  case Nil
  then show ?case by simp
next
  case (Cons p ps)
  have len: "j < length (objects (modify p f s))" using Cons.prems by (simp add: modify_def)
  have "objects (fold (\<lambda>p. modify p f) (p # ps) s) ! j
        = (if j \<in> set ps then f (objects (modify p f s) ! j) else objects (modify p f s) ! j)"
    using Cons.IH[OF _ len] Cons.prems by simp
  also have "\<dots> = (if j \<in> set (p # ps) then f (objects s ! j) else objects s ! j)"
  proof (cases "j = p")
    case True
    then show ?thesis using Cons.prems by (simp add: modify_def)
  next
    case False
    then show ?thesis by (simp add: modify_def)
  qed
  finally show ?case .
qed

lemma updateAttentionValues_nth:
  assumes "store_ok s" and "j < length (objects s)"
  shows "objects (updateAttentionValues s) ! j
         = (if j \<in> set (getAtoms s) then decay_atom (objects s ! j) else objects s ! j)"
  using fold_modify_nth[OF store_ok_ptrs(1)[OF assms(1)] assms(2)]
  by (simp add: updateAttentionValues_fold)

lemma updateAttentionValues_rest: "(updateAttentionValues s)\<lparr>objects := objects s\<rparr> = s"
  by (simp add: updateAttentionValues_fold fold_modify_rest)

lemma updateAttentionValues_length:
  "length (objects (updateAttentionValues s)) = length (objects s)"
  by (simp add: updateAttentionValues_fold fold_modify_length)

lemma updateAttentionValues_atoms: "atoms (updateAttentionValues s) = atoms s"
proof -
  have "atoms ((updateAttentionValues s)\<lparr>objects := objects s\<rparr>) = atoms s"
    by (simp only: updateAttentionValues_rest)
  then show ?thesis by simp
qed

lemma store_ok_updateAttentionValues:
  assumes "store_ok s" shows "store_ok (updateAttentionValues s)"
proof -
  have ent: "\<forall>(i, p) \<in> set (atoms s). p < length (objects s) \<and> atom_id (objects s ! p) = i"
    using assms by (simp add: store_ok_def list_all_iff)
  have "\<forall>(i, p) \<in> set (atoms s). p < length (objects s)
          \<and> atom_id (objects (updateAttentionValues s) ! p) = i"
    using ent updateAttentionValues_nth[OF assms] by (auto simp: decay_atom_def)
  then show ?thesis
    using assms
    by (simp add: store_ok_def list_all_iff updateAttentionValues_atoms
        updateAttentionValues_length)
qed

lemma store_ok_funpow: "store_ok s \<Longrightarrow> store_ok ((updateAttentionValues ^^ n) s)"
  by (induction n) (simp_all add: store_ok_updateAttentionValues)

lemma getAtoms_funpow: "getAtoms ((updateAttentionValues ^^ n) s) = getAtoms s"
  by (induction n) (simp_all add: getAtoms_def updateAttentionValues_atoms)

lemma length_funpow: "length (objects ((updateAttentionValues ^^ n) s)) = length (objects s)"
  by (induction n) (simp_all add: updateAttentionValues_length)

lemma sti_funpow:
  assumes "store_ok s" and "p \<in> set (getAtoms s)"
  shows "sti (attention_value (objects ((updateAttentionValues ^^ n) s) ! p))
         = sti (attention_value (objects s ! p)) * 0.99 ^ n"
proof (induction n)
  case 0
  show ?case by simp
next
  case (Suc n)
  let ?t = "(updateAttentionValues ^^ n) s"
  have ok: "store_ok ?t" by (rule store_ok_funpow[OF assms(1)])
  have mem: "p \<in> set (getAtoms ?t)" using assms(2) by (simp add: getAtoms_funpow)
  have lt: "p < length (objects ?t)" using store_ok_ptrs(2)[OF ok] mem by blast
  have "objects (updateAttentionValues ?t) ! p = decay_atom (objects ?t ! p)"
    using updateAttentionValues_nth[OF ok lt] mem by simp
  then show ?case using Suc.IH by (simp add: decay_atom_def decay_def Let_def)
qed

text \<open>C8: one call of \<open>updateAttentionValues\<close> replaces the attention value of every atom
  of the store by its decayed value, computed in sequence as \<open>sti * 0.99\<close>, then
  \<open>lti * 0.999 + sti * 0.001\<close> with the new \<open>sti\<close>, then \<open>vlti * 0.9999 + lti * 0.0001\<close>
  with the new \<open>lti\<close>; it changes nothing else of an atom, no object outside the store, and
  nothing else of the store. Under repeated calls with no other write, \<open>|sti|\<close> of every
  atom of the store shrinks by the factor 0.99 per call, so it never grows, and \<open>sti\<close>
  tends to 0. The numbers are real numbers here; the rounding of \<open>double\<close> is not
  modelled.\<close>

theorem C8_updateAttentionValues_decay:
  assumes "store_ok s"
  shows "length (objects (updateAttentionValues s)) = length (objects s)
    \<and> (\<forall>p. p < length (objects s) \<longrightarrow>
          objects (updateAttentionValues s) ! p =
            (if p \<in> set (getAtoms s)
             then (objects s ! p)\<lparr>attention_value := decay (attention_value (objects s ! p))\<rparr>
             else objects s ! p))
    \<and> (updateAttentionValues s)\<lparr>objects := objects s\<rparr> = s
    \<and> sti (decay av) = sti av * 0.99
    \<and> lti (decay av) = lti av * 0.999 + sti (decay av) * 0.001
    \<and> vlti (decay av) = vlti av * 0.9999 + lti (decay av) * 0.0001
    \<and> (\<forall>p \<in> set (getAtoms s). \<forall>n.
          \<bar>sti (attention_value (objects ((updateAttentionValues ^^ Suc n) s) ! p))\<bar>
            = 0.99 * \<bar>sti (attention_value (objects ((updateAttentionValues ^^ n) s) ! p))\<bar>
          \<and> \<bar>sti (attention_value (objects ((updateAttentionValues ^^ Suc n) s) ! p))\<bar>
            \<le> \<bar>sti (attention_value (objects ((updateAttentionValues ^^ n) s) ! p))\<bar>)
    \<and> (\<forall>p \<in> set (getAtoms s).
          (\<lambda>n. sti (attention_value (objects ((updateAttentionValues ^^ n) s) ! p)))
            \<longlonglongrightarrow> 0)"
proof -
  have a: "\<forall>p. p < length (objects s) \<longrightarrow>
          objects (updateAttentionValues s) ! p =
            (if p \<in> set (getAtoms s)
             then (objects s ! p)\<lparr>attention_value := decay (attention_value (objects s ! p))\<rparr>
             else objects s ! p)"
    using updateAttentionValues_nth[OF assms] by (simp add: decay_atom_def)
  have b: "\<forall>p \<in> set (getAtoms s). \<forall>n.
          \<bar>sti (attention_value (objects ((updateAttentionValues ^^ Suc n) s) ! p))\<bar>
            = 0.99 * \<bar>sti (attention_value (objects ((updateAttentionValues ^^ n) s) ! p))\<bar>
          \<and> \<bar>sti (attention_value (objects ((updateAttentionValues ^^ Suc n) s) ! p))\<bar>
            \<le> \<bar>sti (attention_value (objects ((updateAttentionValues ^^ n) s) ! p))\<bar>"
  proof (intro ballI allI)
    fix p n assume p: "p \<in> set (getAtoms s)"
    let ?x = "sti (attention_value (objects s ! p))"
    have e: "\<bar>?x * 0.99 ^ Suc n\<bar> = 0.99 * \<bar>?x * 0.99 ^ n\<bar>" by (simp add: abs_mult)
    have "0.99 * \<bar>?x * 0.99 ^ n\<bar> \<le> 1 * \<bar>?x * 0.99 ^ n\<bar>"
      by (rule mult_right_mono) simp_all
    then show "\<bar>sti (attention_value (objects ((updateAttentionValues ^^ Suc n) s) ! p))\<bar>
            = 0.99 * \<bar>sti (attention_value (objects ((updateAttentionValues ^^ n) s) ! p))\<bar>
          \<and> \<bar>sti (attention_value (objects ((updateAttentionValues ^^ Suc n) s) ! p))\<bar>
            \<le> \<bar>sti (attention_value (objects ((updateAttentionValues ^^ n) s) ! p))\<bar>"
      using e unfolding sti_funpow[OF assms p] by simp
  qed
  have c: "\<forall>p \<in> set (getAtoms s).
          (\<lambda>n. sti (attention_value (objects ((updateAttentionValues ^^ n) s) ! p)))
            \<longlonglongrightarrow> 0"
  proof
    fix p assume p: "p \<in> set (getAtoms s)"
    have "(\<lambda>n. (0.99::real) ^ n) \<longlonglongrightarrow> 0"
      by (rule LIMSEQ_realpow_zero) simp_all
    then have "(\<lambda>n. sti (attention_value (objects s ! p)) * 0.99 ^ n) \<longlonglongrightarrow> 0"
      by (rule tendsto_mult_right_zero)
    then show "(\<lambda>n. sti (attention_value (objects ((updateAttentionValues ^^ n) s) ! p)))
            \<longlonglongrightarrow> 0"
      by (simp add: sti_funpow[OF assms p])
  qed
  have d: "sti (decay av) = sti av * 0.99"
    "lti (decay av) = lti av * 0.999 + sti (decay av) * 0.001"
    "vlti (decay av) = vlti av * 0.9999 + lti (decay av) * 0.0001"
    by (simp_all add: decay_def Let_def)
  show ?thesis
    using a b c d updateAttentionValues_length[of s] updateAttentionValues_rest[of s]
    by blast
qed


text \<open>The consistency of the atom map holds in every state the store reaches from the empty
  one.\<close>

lemma store_ok_iff:
  "store_ok s \<longleftrightarrow>
     distinct (map fst (atoms s))
     \<and> (\<forall>i p. map_of (atoms s) i = Some p \<longrightarrow> p < length (objects s) \<and> atom_id (objects s ! p) = i)"
  by (auto simp: store_ok_def list_all_iff)

lemma store_ok_new: "store_ok (new_AgentSpace name)"
  by (simp add: store_ok_def new_AgentSpace_def)

lemma store_ok_alloc: "store_ok s \<Longrightarrow> store_ok (snd (alloc a s))"
  by (auto simp: store_ok_iff alloc_def nth_append less_Suc_eq)

lemma store_ok_modify:
  assumes "\<And>a. atom_id (f a) = atom_id a" and "store_ok s"
  shows "store_ok (modify p f s)"
  using assms by (auto simp: store_ok_iff modify_def nth_list_update)

lemma store_ok_addAtom:
  assumes "store_ok s" and "ptr_ok s atom"
  shows "store_ok (snd (addAtom atom s))"
proof (cases atom)
  case None
  then show ?thesis using assms by (simp add: addAtom_def)
next
  case (Some p)
  then have "p < length (objects s)" using assms(2) by (simp add: ptr_ok_def)
  then show ?thesis
    using assms(1) Some
    by (auto simp: store_ok_iff addAtom_def addAtomToIndices_def Let_def distinct_update
        update_conv')
qed

lemma store_ok_removeAtom:
  assumes "store_ok s" shows "store_ok (snd (removeAtom ident s))"
proof (cases "map_of (atoms s) ident")
  case None
  then show ?thesis using assms by (simp add: removeAtom_def)
next
  case (Some q)
  have e: "snd (removeAtom ident s)
           = (removeAtomFromIndices q s)\<lparr>atoms := AList.delete ident (atoms s)\<rparr>"
    using Some by (simp add: removeAtom_def removeAtomFromIndices_def Let_def)
  have o: "objects (snd (removeAtom ident s)) = objects s"
    and a: "atoms (snd (removeAtom ident s)) = AList.delete ident (atoms s)"
    by (simp_all add: e removeAtomFromIndices_def Let_def)
  have "map_of (AList.delete ident (atoms s)) i = Some p \<Longrightarrow> map_of (atoms s) i = Some p"
    for i p by (simp add: delete_conv' split: if_splits)
  then show ?thesis
    using assms unfolding store_ok_iff o a
    by (simp add: distinct_delete del: map_of_eq_Some_iff) blast
qed

lemma store_ok_clear: "store_ok (clear s)"
  by (simp add: store_ok_def clear_def)

lemma store_ok_focus:
  "store_ok s \<Longrightarrow> store_ok (s\<lparr>attentional_focus := f\<rparr>)"
  by (simp add: store_ok_def)

lemma ptr_ok_alloc: "ptr_ok (snd (alloc a s)) (Some (fst (alloc a s)))"
  by (simp add: ptr_ok_def alloc_def)

lemma ptr_ok_modify: "ptr_ok (modify p f s) q = ptr_ok s q"
  by (simp add: ptr_ok_def modify_def split: option.splits)

lemma store_ok_addMemoryNode:
  assumes "store_ok s" shows "store_ok (snd (addMemoryNode c ty uuid short now s))"
proof -
  let ?a = "new_Atom uuid now MEMORY_NODE (''memory_'' @ short) (Node c)"
  let ?p = "fst (alloc ?a s)"
  let ?s3 = "setAttentionValue ?p (mk_AttentionValue 0.5 0.0 0.3)
               (setMetadata ?p ''memory_type'' ty (snd (alloc ?a s)))"
  have ok: "store_ok ?s3"
    unfolding setAttentionValue_def setMetadata_def
    by (intro store_ok_modify store_ok_alloc assms) simp_all
  have p: "ptr_ok ?s3 (Some ?p)"
    unfolding setAttentionValue_def setMetadata_def by (simp add: ptr_ok_modify ptr_ok_alloc)
  have "snd (addMemoryNode c ty uuid short now s) = snd (addAtom (Some ?p) ?s3)"
    by (simp add: addMemoryNode_def new_Node_def Let_def split_beta)
  then show ?thesis using store_ok_addAtom[OF ok p] by simp
qed

lemma store_ok_addTrustRelationship:
  assumes "store_ok s" shows "store_ok (snd (addTrustRelationship a1 a2 lvl uuid now fmt s))"
proof (cases "getAtom a1 s")
  case None
  then show ?thesis using assms by (simp add: addTrustRelationship_def)
next
  case (Some p1)
  show ?thesis
  proof (cases "getAtom a2 s")
    case None
    then show ?thesis using assms Some by (simp add: addTrustRelationship_def)
  next
    case (Some p2)
    let ?a = "new_Atom uuid now TRUST_LINK [] (Link [Some p1, Some p2])"
    let ?p = "fst (alloc ?a s)"
    let ?s3 = "setMetadata ?p ''trust_level'' (fmt lvl)
                 (setTruthValue ?p (mk_TruthValue lvl 0.5) (snd (alloc ?a s)))"
    have ok: "store_ok ?s3"
      unfolding setTruthValue_def setMetadata_def
      by (intro store_ok_modify store_ok_alloc assms) simp_all
    have p: "ptr_ok ?s3 (Some ?p)"
      unfolding setTruthValue_def setMetadata_def by (simp add: ptr_ok_modify ptr_ok_alloc)
    have "snd (addTrustRelationship a1 a2 lvl uuid now fmt s) = snd (addAtom (Some ?p) ?s3)"
      using \<open>getAtom a1 s = Some p1\<close> Some
      by (simp add: addTrustRelationship_def new_Link_def Let_def split_beta)
    then show ?thesis using store_ok_addAtom[OF ok p] by simp
  qed
qed

lemma store_ok_apply: "store_ok s \<Longrightarrow> store_ok (apply_op op s)"
proof (cases op)
  case (OpAddOutgoing p atom)
  assume "store_ok s"
  then show ?thesis using OpAddOutgoing
    by (auto simp: addOutgoing_def split: option.splits AtomKind.splits
        intro!: store_ok_modify)
next
  case (OpRemoveOutgoing p atom)
  assume "store_ok s"
  then show ?thesis using OpRemoveOutgoing
    by (auto simp: removeOutgoing_def split: AtomKind.splits intro!: store_ok_modify)
qed (simp_all add: new_Node_def new_Link_def store_ok_alloc store_ok_addAtom store_ok_removeAtom
      setName_def setTruthValue_def setAttentionValue_def setMetadata_def store_ok_modify
      store_ok_addMemoryNode store_ok_addTrustRelationship addToAttentionalFocus_def
      removeFromAttentionalFocus_def store_ok_focus store_ok_updateAttentionValues
      store_ok_clear Let_def)

lemma store_ok_run: "store_ok s \<Longrightarrow> store_ok (run_ops ops s)"
  unfolding run_ops_def by (induction ops arbitrary: s) (simp_all add: store_ok_apply)

lemma store_ok_reachable: "store_ok (run_ops ops (new_AgentSpace name))"
  by (rule store_ok_run[OF store_ok_new])

lemma space_mem_atoms: "atoms space_mem = [(''M'', 0)]"
  by (simp add: space_mem_def run_ops_def addMemoryNode_def new_Node_def alloc_def addAtom_def
      addAtomToIndices_def setMetadata_def setAttentionValue_def modify_def new_Atom_def
      new_AgentSpace_def Let_def)

lemma space_mem_objects:
  "objects space_mem =
     [(new_Atom ''M'' 0 MEMORY_NODE ''memory_0a1b2c3d'' (Node ''met bob''))
        \<lparr>attention_value := \<lparr>sti = 0.5, lti = 0, vlti = 0.3\<rparr>,
         metadata := [''memory_type'' \<mapsto> ''episodic'']\<rparr>]"
  by (simp add: space_mem_def run_ops_def addMemoryNode_def new_Node_def alloc_def addAtom_def
      addAtomToIndices_def setMetadata_def setAttentionValue_def modify_def new_Atom_def
      new_AgentSpace_def Let_def mk_AttentionValue_def clamp_def)

theorem C8_updateAttentionValues_decay_witness:
  "store_ok space_mem
   \<and> getAtoms space_mem = [0]
   \<and> attention_value (objects space_mem ! 0) = \<lparr>sti = 0.5, lti = 0, vlti = 0.3\<rparr>
   \<and> attention_value (objects (updateAttentionValues space_mem) ! 0)
       = \<lparr>sti = 0.495, lti = 0.000495, vlti = 0.2999700495\<rparr>
   \<and> \<bar>sti (attention_value (objects (updateAttentionValues (updateAttentionValues space_mem)) ! 0))\<bar>
       \<le> \<bar>sti (attention_value (objects (updateAttentionValues space_mem) ! 0))\<bar>"
proof -
  have ok: "store_ok space_mem" unfolding space_mem_def by (rule store_ok_reachable)
  have g: "getAtoms space_mem = [0]" by (simp add: getAtoms_def space_mem_atoms)
  have l: "length (objects space_mem) = 1" by (simp add: space_mem_objects)
  have av: "attention_value (objects space_mem ! 0) = \<lparr>sti = 0.5, lti = 0, vlti = 0.3\<rparr>"
    by (simp add: space_mem_objects)
  have d: "decay \<lparr>sti = 0.5, lti = 0, vlti = 0.3\<rparr>
           = \<lparr>sti = 0.495, lti = 0.000495, vlti = 0.2999700495\<rparr>"
    by (simp add: decay_def Let_def)
  note t = C8_updateAttentionValues_decay[OF ok, where av = "\<lparr>sti = 0.5, lti = 0, vlti = 0.3\<rparr>"]
  have "\<forall>n. \<bar>sti (attention_value (objects ((updateAttentionValues ^^ Suc n) space_mem) ! 0))\<bar>
       \<le> \<bar>sti (attention_value (objects ((updateAttentionValues ^^ n) space_mem) ! 0))\<bar>"
    using t g by simp
  from spec[OF this, of "Suc 0"]
  have m: "\<bar>sti (attention_value (objects (updateAttentionValues (updateAttentionValues space_mem)) ! 0))\<bar>
       \<le> \<bar>sti (attention_value (objects (updateAttentionValues space_mem) ! 0))\<bar>"
    by simp
  have "objects (updateAttentionValues space_mem) ! 0
        = (objects space_mem ! 0)\<lparr>attention_value := decay (attention_value (objects space_mem ! 0))\<rparr>"
    using t g l by simp
  then show ?thesis using ok g av d m by simp
qed


section \<open>The cognitive cycle\<close>

text \<open>Every task that \<open>runCognitiveCycle\<close> pushes has priority 0 and no parameters, and
  among tasks of one priority every position of the queue can be the one that is popped.\<close>

lemma scheduleCognitivePhase_queue:
  "task_queue (scheduleCognitivePhase ident ph params short now k)
   = task_queue k @
       [\<lparr>task_id = ''task_'' @ short, task_agent_id = ident, phase = ph,
         description = ''Cognitive phase: '' @ to_string (phase_index ph),
         parameters = params, created_at = now, scheduled_at = now, priority = 0\<rparr>]"
  by (simp add: scheduleCognitivePhase_def scheduleTask_def new_CognitiveTask_def)

lemma runCognitiveCycle_queue:
  assumes "hasAgent ident k"
  shows "task_queue (runCognitiveCycle ident short now k)
         = task_queue k @
             map (\<lambda>ph. \<lparr>task_id = ''task_'' @ short ph, task_agent_id = ident, phase = ph,
                         description = ''Cognitive phase: '' @ to_string (phase_index ph),
                         parameters = Map.empty, created_at = now, scheduled_at = now,
                         priority = 0\<rparr>) cycle_phases"
  using assms
  by (simp add: runCognitiveCycle_def Let_def cycle_phases_def scheduleCognitivePhase_queue)

lemma can_pop_equal_priorities:
  assumes "list_all (\<lambda>t. priority t = c) q" and "i < length q"
  shows "can_pop q i"
proof -
  have "\<forall>t \<in> set q. priority t = c" using assms(1) by (simp add: list_all_iff)
  moreover have "q ! i \<in> set q" using assms(2) by simp
  ultimately show ?thesis using assms(2) by (simp add: can_pop_def task_less_def list_all_iff)
qed

text \<open>A Learning task whose parameters carry no positive \<open>actions_executed\<close> leaves the store
  as it is, and a task of any other phase creates no atom.\<close>

lemma agentspace_notifyCallbacks [simp]: "agentspace (notifyCallbacks ident st k) = agentspace k"
  by (simp add: notifyCallbacks_def split: option.splits)

lemma agentspace_updateCognitiveState [simp]:
  "agentspace (snd (updateCognitiveState ident st now k)) = agentspace k"
  by (simp add: updateCognitiveState_def Let_def split: option.splits)

lemma agentspace_advance_phase [simp]: "agentspace (advance_phase ident f env k) = agentspace k"
  by (simp add: advance_phase_def Let_def)

lemma agentspace_updateStats [simp]: "agentspace (updateStats t b d k) = agentspace k"
  by (simp add: updateStats_def Let_def)

lemma learning_without_count:
  assumes "phase t = LEARNING"
    and "parseInt (case parameters t ''actions_executed'' of None \<Rightarrow> [] | Some v \<Rightarrow> v) 0 \<le> 0"
  shows "agentspace (processTask t env k) = agentspace k"
  using assms
  by (simp add: processTask_def executePhaseFunction_def processLearningPhase_def
      updateKnowledge_def var_read_def new_CognitiveContext_def Let_def split_beta
      split: option.splits)

lemma atoms_fold_focus [simp]: "atoms (fold addToAttentionalFocus ids s) = atoms s"
  by (induction ids arbitrary: s) (simp_all add: addToAttentionalFocus_def Let_def)

lemma objects_fold_focus [simp]: "objects (fold addToAttentionalFocus ids s) = objects s"
  by (induction ids arbitrary: s) (simp_all add: addToAttentionalFocus_def Let_def)

lemma other_phases_create_no_atom:
  assumes "phase t \<noteq> LEARNING"
  shows "atoms (agentspace (processTask t env k)) = atoms (agentspace k)
         \<and> length (objects (agentspace (processTask t env k))) = length (objects (agentspace k))"
proof (cases "phase t")
  case ATTENTION
  then show ?thesis
    by (simp add: processTask_def executePhaseFunction_def processAttentionPhase_def
        selectAttentionalFocus_def Let_def split_beta updateAttentionValues_atoms
        updateAttentionValues_length)
next
  case LEARNING
  then show ?thesis using assms by simp
next
  case PLANNING
  then show ?thesis
    by (simp add: processTask_def executePhaseFunction_def processPlanningPhase_def
        createActionPlans_def Let_def split_beta)
qed (simp_all add: processTask_def executePhaseFunction_def processPerceptionPhase_def
      processReasoningPhase_def processExecutionPhase_def processReflectionPhase_def
      Let_def split_beta)

text \<open>C1, on the code: after \<open>runCognitiveCycle\<close> for a registered agent the queue holds 7
  tasks, one per phase, and every one of them has priority 0, so the priorities do not
  decrease with the phase. A worker may then take the Reflection task first and the other
  six in their order; the observer sees the phases in that order (Planning notifies twice),
  and after the drain the agent's phase is Reflection, not Perception.\<close>

theorem C1_cycle_tasks_unordered:
  "hasAgent ''a1'' (registerCallback ''a1'' 0 kernel1)
   \<and> map phase (task_queue kernel2) = cycle_phases
   \<and> map priority (task_queue kernel2) = [0, 0, 0, 0, 0, 0, 0]
   \<and> (case run_worker ((6, env0) # replicate 6 (0, env0)) kernel2 of
        None \<Rightarrow> False
      | Some k \<Rightarrow>
          task_queue k = [] \<and> completed_tasks (stats k) = 7
          \<and> map (current_phase \<circ> snd) (callback_log k)
              = [PERCEPTION, ATTENTION, REASONING, PLANNING, PLANNING, EXECUTION, LEARNING,
                 REFLECTION]
          \<and> current_phase (getCognitiveState ''a1'' 3 k) = REFLECTION)"
  by code_simp

text \<open>C4, on the code: for an agent with one goal, one \<open>runCognitiveCycle\<close> whose 7 tasks are
  processed in the order of the phases completes all 7 tasks, leaves the agent with one
  intention and in phase Perception, and creates no atom: every task starts from a fresh
  context, so the Learning task finds no \<open>actions_executed\<close>.\<close>

theorem C4_learning_creates_no_atom:
  "goals (getCognitiveState ''a1'' 2 kernel2) = [''g1'']
   \<and> (case run_worker (replicate 7 (0, env0)) kernel2 of
        None \<Rightarrow> False
      | Some k \<Rightarrow>
          task_queue k = [] \<and> completed_tasks (stats k) = 7 \<and> failed_tasks (stats k) = 0
          \<and> current_phase (getCognitiveState ''a1'' 3 k) = PERCEPTION
          \<and> intentions (getCognitiveState ''a1'' 3 k) = [''plan_for_g1'']
          \<and> atoms (agentspace k) = [] \<and> objects (agentspace k) = [])"
  by code_simp

lemma split_from_free:
  "d \<notin> set y \<Longrightarrow> split_from tok (y @ s) d = split_from (rev y @ tok) s d"
  by (induction y arbitrary: tok) auto

lemma split_from_joined:
  "tok \<noteq> [] \<Longrightarrow> \<forall>y \<in> set ys. y \<noteq> [] \<and> d \<notin> set y \<Longrightarrow>
   split_from tok (concat (map ((#) d) ys)) d = rev tok # ys"
proof (induction ys arbitrary: tok)
  case Nil
  then show ?case by simp
next
  case (Cons y ys)
  have "split_from tok (concat (map ((#) d) (y # ys))) d
        = rev tok # split_from [] (y @ concat (map ((#) d) ys)) d"
    by simp
  also have "\<dots> = rev tok # split_from (rev y) (concat (map ((#) d) ys)) d"
    using Cons.prems(2) by (simp add: split_from_free)
  also have "\<dots> = rev tok # y # ys"
    using Cons.IH[of "rev y"] Cons.prems(2) by simp
  finally show ?case .
qed

lemma split_join:
  assumes "\<forall>y \<in> set xs. y \<noteq> [] \<and> d \<notin> set y"
  shows "split (join xs [d]) d = xs"
proof (cases xs)
  case Nil
  then show ?thesis by (simp add: split_def)
next
  case (Cons x ys)
  have e: "(@) [d] = (#) d" by (rule ext) simp
  have "split (join xs [d]) d = split_from (rev x) (concat (map ((#) d) ys)) d"
    using assms Cons by (simp add: split_def split_from_free[of d x "[]", simplified] e)
  then show ?thesis using split_from_joined[of "rev x" ys d] assms Cons by simp
qed

lemma executeActions_count:
  "variables (executeActions ident ctx) ''actions_executed''
   = Some (to_string (length (split (var_or_empty (variables ctx) ''action_plans'') CHR '','')))"
  by (simp add: executeActions_def var_read_def var_or_empty_def Let_def split: option.splits)

lemma getCognitiveState_update:
  "hasAgent ident k \<Longrightarrow>
   getCognitiveState ident now' (snd (updateCognitiveState ident st now k)) = st\<lparr>last_update := now\<rparr>"
  by (auto simp: hasAgent_def getCognitiveState_def updateCognitiveState_def Let_def update_conv')

lemma hasAgent_update:
  "hasAgent ident k \<Longrightarrow> hasAgent ident (snd (updateCognitiveState ident st now k))"
  by (auto simp: hasAgent_def updateCognitiveState_def Let_def update_conv')

text \<open>C3 (amended): the Execution handler counts every comma-separated entry of the context
  variable \<open>action_plans\<close> and records that number as \<open>actions_executed\<close>; there is no limit
  of 3 and the agent's intentions are not read. When the handler runs on the context the
  Planning handler has just filled, for a registered agent none of whose goals contains a
  comma, the agent holds one intention per goal and the recorded count is the number of
  intentions.\<close>

theorem C3_execution_counts_all_plans:
  "variables (fst (processExecutionPhase ident ctx env k)) ''actions_executed''
     = Some (to_string (length (split (var_or_empty (variables ctx) ''action_plans'') CHR '','')))
   \<and> (hasAgent ident k \<and> (\<forall>g \<in> set (goals (getCognitiveState ident (env_now env) k)). CHR '','' \<notin> set g)
        \<longrightarrow> intentions (getCognitiveState ident (env_now env)
                           (snd (processPlanningPhase ident ctx env k)))
              = map (\<lambda>goal. ''plan_for_'' @ goal) (goals (getCognitiveState ident (env_now env) k))
            \<and> variables (fst (plan_then_execute ident ctx env k)) ''actions_executed''
              = Some (to_string (length (goals (getCognitiveState ident (env_now env) k)))))"
proof (intro conjI impI)
  show "variables (fst (processExecutionPhase ident ctx env k)) ''actions_executed''
     = Some (to_string (length (split (var_or_empty (variables ctx) ''action_plans'') CHR '','')))"
    by (simp add: processExecutionPhase_def Let_def executeActions_count)
next
  assume h: "hasAgent ident k \<and> (\<forall>g \<in> set (goals (getCognitiveState ident (env_now env) k)). CHR '','' \<notin> set g)"
  let ?st = "getCognitiveState ident (env_now env) k"
  let ?plans = "map (\<lambda>goal. ''plan_for_'' @ goal) (goals ?st)"
  let ?k1 = "snd (updateCognitiveState ident (?st\<lparr>intentions := ?plans\<rparr>) (env_now env) k)"
  have k1: "snd (createActionPlans ident ctx env k) = ?k1"
    by (simp add: createActionPlans_def Let_def split_beta)
  have c1: "variables (fst (createActionPlans ident ctx env k)) ''action_plans''
            = Some (join ?plans '','')"
    by (simp add: createActionPlans_def Let_def split_beta)
  have has1: "hasAgent ident ?k1" using h by (simp add: hasAgent_update)
  have st1: "getCognitiveState ident (env_now env) ?k1
             = ?st\<lparr>intentions := ?plans, last_update := env_now env\<rparr>"
    using h by (simp add: getCognitiveState_update)
  show "intentions (getCognitiveState ident (env_now env)
                           (snd (processPlanningPhase ident ctx env k))) = ?plans"
    using has1 st1
    by (simp add: processPlanningPhase_def advance_phase_def Let_def split_beta k1
        getCognitiveState_update)
  have ok: "\<forall>y \<in> set ?plans. y \<noteq> [] \<and> CHR '','' \<notin> set y" using h by auto
  have "split (join ?plans '','') CHR '','' = ?plans"
    using split_join[OF ok] by simp
  then show "variables (fst (plan_then_execute ident ctx env k)) ''actions_executed''
              = Some (to_string (length (goals ?st)))"
    by (simp add: plan_then_execute_def processPlanningPhase_def processExecutionPhase_def
        Let_def split_beta executeActions_count var_or_empty_def c1)
qed

theorem C3_execution_counts_all_plans_witness:
  "hasAgent ''a4'' kernel4
   \<and> goals (getCognitiveState ''a4'' 2 kernel4) = [''g1'', ''g2'', ''g3'', ''g4'']
   \<and> intentions (getCognitiveState ''a4'' 2
        (snd (processPlanningPhase ''a4'' (new_CognitiveContext ''a4'') env0 kernel4)))
       = [''plan_for_g1'', ''plan_for_g2'', ''plan_for_g3'', ''plan_for_g4'']
   \<and> variables (fst (plan_then_execute ''a4'' (new_CognitiveContext ''a4'') env0 kernel4))
        ''actions_executed'' = Some ''4''"
proof -
  have h: "hasAgent ''a4'' kernel4" by code_simp
  have n: "env_now env0 = 2" by (simp add: env0_def)
  have g: "goals (getCognitiveState ''a4'' 2 kernel4) = [''g1'', ''g2'', ''g3'', ''g4'']"
    by code_simp
  have f: "\<forall>g \<in> set (goals (getCognitiveState ''a4'' (env_now env0) kernel4)). CHR '','' \<notin> set g"
    by (simp add: n g)
  have t: "to_string (Suc (Suc (Suc (Suc 0)))) = ''4''" by (simp add: to_string.simps)
  show ?thesis
    using C3_execution_counts_all_plans[of "''a4''" "new_CognitiveContext ''a4''" env0 kernel4]
      h f g
    by (simp add: n t)
qed

text \<open>The claim as stated fails: with four intentions the recorded count is 4, which is more
  than 3.\<close>

theorem C3_counterexample:
  "length (intentions (getCognitiveState ''a4'' 2
        (snd (processPlanningPhase ''a4'' (new_CognitiveContext ''a4'') env0 kernel4)))) = 4
   \<and> variables (fst (processExecutionPhase ''a4''
                       (fst (processPlanningPhase ''a4'' (new_CognitiveContext ''a4'') env0 kernel4))
                       env0
                       (snd (processPlanningPhase ''a4'' (new_CognitiveContext ''a4'') env0 kernel4))))
        ''actions_executed'' = Some ''4''
   \<and> \<not> (4::nat) \<le> 3"
  by code_simp


section \<open>Index consistency\<close>

lemma index_at_insert:
  "index_at (index_insert m k x) k' = (if k' = k then insert x (index_at m k) else index_at m k')"
  by (simp add: index_at_def index_insert_def)

lemma index_at_erase_eq:
  "index_at (index_erase m k x) k' = (if k' = k then index_at m k - {x} else index_at m k')"
  by (simp add: index_at_def index_erase_def)

lemma store_ok_entry:
  "store_ok s \<Longrightarrow> map_of (atoms s) i = Some p \<Longrightarrow> p < length (objects s) \<and> atom_id (objects s ! p) = i"
  by (simp add: store_ok_iff)

lemma ids_unique_eq:
  "ids_unique s \<Longrightarrow> p < length (objects s) \<Longrightarrow> q < length (objects s) \<Longrightarrow>
   atom_id (objects s ! p) = atom_id (objects s ! q) \<Longrightarrow> p = q"
  using nth_eq_iff_index_eq[of "map atom_id (objects s)" p q] by (simp add: ids_unique_def)


lemma index_ok_cong:
  assumes "index_ok s"
    and "atoms s' = atoms s"
    and "atoms_by_type s' = atoms_by_type s"
    and "atoms_by_name s' = atoms_by_name s"
    and "\<And>i p. map_of (atoms s) i = Some p \<Longrightarrow>
           atom_type (objects s' ! p) = atom_type (objects s ! p)
           \<and> atom_name (objects s' ! p) = atom_name (objects s ! p)"
  shows "index_ok s'"
proof -
  have t: "(\<exists>p. map_of (atoms s) i = Some p \<and> atom_type (objects s' ! p) = ty)
           \<longleftrightarrow> (\<exists>p. map_of (atoms s) i = Some p \<and> atom_type (objects s ! p) = ty)" for i ty
    using assms(5) by auto
  have n: "(\<exists>p. map_of (atoms s) i = Some p \<and> atom_name (objects s' ! p) = nm)
           \<longleftrightarrow> (\<exists>p. map_of (atoms s) i = Some p \<and> atom_name (objects s ! p) = nm)" for i nm
    using assms(5) by auto
  show ?thesis
    using assms(1) unfolding index_ok_def assms(2,3,4) t n .
qed


lemma index_ok_rules:
  assumes "index_ok s"
  shows "(i \<in> index_at (atoms_by_type s) ty)
           = (\<exists>q. map_of (atoms s) i = Some q \<and> atom_type (objects s ! q) = ty)"
    and "(i \<in> index_at (atoms_by_name s) nm)
           = (\<exists>q. map_of (atoms s) i = Some q \<and> atom_name (objects s ! q) = nm)"
  using assms by (simp_all add: index_ok_def)

lemma inv_alloc:
  assumes "space_inv s" and "unused_id (atom_id a) s"
  shows "space_inv (snd (alloc a s))"
proof -
  have ok: "store_ok s" and ix: "index_ok s" and un: "ids_unique s"
    using assms(1) by (simp_all add: space_inv_def)
  have "index_ok (snd (alloc a s))"
  proof (rule index_ok_cong[OF ix])
    fix i p assume "map_of (atoms s) i = Some p"
    then have "p < length (objects s)" using store_ok_entry[OF ok] by blast
    then show "atom_type (objects (snd (alloc a s)) ! p) = atom_type (objects s ! p)
           \<and> atom_name (objects (snd (alloc a s)) ! p) = atom_name (objects s ! p)"
      by (simp add: alloc_def nth_append)
  qed (simp_all add: alloc_def)
  moreover have "ids_unique (snd (alloc a s))"
    using un assms(2) by (simp add: ids_unique_def alloc_def unused_id_def)
  ultimately show ?thesis using store_ok_alloc[OF ok] by (simp add: space_inv_def)
qed

lemma inv_modify_unstored:
  assumes "space_inv s"
    and "\<And>a. atom_id (f a) = atom_id a"
    and "p \<notin> set (getAtoms s)"
  shows "space_inv (modify p f s)"
proof -
  have ok: "store_ok s" and ix: "index_ok s" and un: "ids_unique s"
    using assms(1) by (simp_all add: space_inv_def)
  have "index_ok (modify p f s)"
  proof (rule index_ok_cong[OF ix])
    fix i q assume "map_of (atoms s) i = Some q"
    then have "(i, q) \<in> set (atoms s)" by (rule map_of_SomeD)
    then have "q \<in> set (getAtoms s)" by (force simp: getAtoms_def)
    then have "q \<noteq> p" using assms(3) by auto
    then show "atom_type (objects (modify p f s) ! q) = atom_type (objects s ! q)
           \<and> atom_name (objects (modify p f s) ! q) = atom_name (objects s ! q)"
      by (simp add: modify_def)
  qed (simp_all add: modify_def)
  moreover have "map atom_id (objects (modify p f s)) = map atom_id (objects s)"
    using assms(2) by (simp add: modify_def map_update list_update_same_conv)
  ultimately show ?thesis
    using store_ok_modify[OF assms(2) ok] un by (simp add: space_inv_def ids_unique_def)
qed

lemma inv_modify:
  assumes "space_inv s"
    and "\<And>a. atom_id (f a) = atom_id a"
    and "\<And>a. atom_type (f a) = atom_type a"
    and "\<And>a. atom_name (f a) = atom_name a"
  shows "space_inv (modify p f s)"
proof -
  have ok: "store_ok s" and ix: "index_ok s" and un: "ids_unique s"
    using assms(1) by (simp_all add: space_inv_def)
  have "index_ok (modify p f s)"
  proof (rule index_ok_cong[OF ix])
    fix i q assume "map_of (atoms s) i = Some q"
    then have "q < length (objects s)" using store_ok_entry[OF ok] by blast
    then show "atom_type (objects (modify p f s) ! q) = atom_type (objects s ! q)
           \<and> atom_name (objects (modify p f s) ! q) = atom_name (objects s ! q)"
      using assms(3,4) by (simp add: modify_def nth_list_update)
  qed (simp_all add: modify_def)
  moreover have "map atom_id (objects (modify p f s)) = map atom_id (objects s)"
    using assms(2) by (simp add: modify_def map_update list_update_same_conv)
  ultimately show ?thesis
    using store_ok_modify[OF assms(2) ok] un by (simp add: space_inv_def ids_unique_def)
qed


lemma inv_addAtom:
  assumes "space_inv s" and "ptr_ok s atom"
  shows "space_inv (snd (addAtom atom s))"
proof (cases atom)
  case None
  then show ?thesis using assms by (simp add: addAtom_def)
next
  case (Some p)
  have ok: "store_ok s" and ix: "index_ok s" and un: "ids_unique s"
    using assms(1) by (simp_all add: space_inv_def)
  have p: "p < length (objects s)" using assms(2) Some by (simp add: ptr_ok_def)
  let ?a = "objects s ! p"
  let ?s' = "snd (addAtom atom s)"
  have ob: "objects ?s' = objects s"
    and at: "atoms ?s' = AList.update (atom_id ?a) p (atoms s)"
    and bt: "atoms_by_type ?s' = index_insert (atoms_by_type s) (atom_type ?a) (atom_id ?a)"
    and bn: "atoms_by_name ?s' = index_insert (atoms_by_name s) (atom_name ?a) (atom_id ?a)"
    using Some by (simp_all add: addAtom_def addAtomToIndices_def Let_def)
  have K: "q = p" if "map_of (atoms s) (atom_id ?a) = Some q" for q
  proof -
    have "q < length (objects s)" and "atom_id (objects s ! q) = atom_id ?a"
      using store_ok_entry[OF ok that] by simp_all
    then show ?thesis using ids_unique_eq[OF un _ p] by blast
  qed
  have T: "(i \<in> index_at (atoms_by_type ?s') ty)
           = (\<exists>q. map_of (atoms ?s') i = Some q \<and> atom_type (objects ?s' ! q) = ty)" for i ty
  proof (cases "i = atom_id ?a")
    case True
    then show ?thesis
      unfolding ob at bt using K
      by (auto simp: index_at_insert update_conv' index_ok_rules(1)[OF ix])
  next
    case False
    then show ?thesis
      unfolding ob at bt
      by (simp add: index_at_insert update_conv' index_ok_rules(1)[OF ix])
  qed
  have N: "(i \<in> index_at (atoms_by_name ?s') nm)
           = (\<exists>q. map_of (atoms ?s') i = Some q \<and> atom_name (objects ?s' ! q) = nm)" for i nm
  proof (cases "i = atom_id ?a")
    case True
    then show ?thesis
      unfolding ob at bn using K
      by (auto simp: index_at_insert update_conv' index_ok_rules(2)[OF ix])
  next
    case False
    then show ?thesis
      unfolding ob at bn
      by (simp add: index_at_insert update_conv' index_ok_rules(2)[OF ix])
  qed
  have "index_ok ?s'" unfolding index_ok_def using T N by blast
  moreover have "ids_unique ?s'" using un by (simp add: ids_unique_def ob)
  ultimately show ?thesis
    using store_ok_addAtom[OF ok assms(2)] by (simp add: space_inv_def)
qed

lemma inv_removeAtom:
  assumes "space_inv s" shows "space_inv (snd (removeAtom ident s))"
proof (cases "map_of (atoms s) ident")
  case None
  then show ?thesis using assms by (simp add: removeAtom_def)
next
  case (Some p)
  have ok: "store_ok s" and ix: "index_ok s" and un: "ids_unique s"
    using assms(1) by (simp_all add: space_inv_def)
  let ?a = "objects s ! p"
  let ?s' = "snd (removeAtom ident s)"
  have idp: "atom_id ?a = ident" using store_ok_entry[OF ok Some] by simp
  have ob: "objects ?s' = objects s"
    and at: "atoms ?s' = AList.delete ident (atoms s)"
    and bt: "atoms_by_type ?s' = index_erase (atoms_by_type s) (atom_type ?a) ident"
    and bn: "atoms_by_name ?s' = index_erase (atoms_by_name s) (atom_name ?a) ident"
    using Some idp by (simp_all add: removeAtom_def removeAtomFromIndices_def Let_def)
  have T: "(i \<in> index_at (atoms_by_type ?s') ty)
           = (\<exists>q. map_of (atoms ?s') i = Some q \<and> atom_type (objects ?s' ! q) = ty)" for i ty
  proof (cases "i = ident")
    case True
    then show ?thesis
      unfolding ob at bt using Some
      by (auto simp: index_at_erase_eq delete_conv' index_ok_rules(1)[OF ix])
  next
    case False
    then show ?thesis
      unfolding ob at bt
      by (simp add: index_at_erase_eq delete_conv' index_ok_rules(1)[OF ix])
  qed
  have N: "(i \<in> index_at (atoms_by_name ?s') nm)
           = (\<exists>q. map_of (atoms ?s') i = Some q \<and> atom_name (objects ?s' ! q) = nm)" for i nm
  proof (cases "i = ident")
    case True
    then show ?thesis
      unfolding ob at bn using Some
      by (auto simp: index_at_erase_eq delete_conv' index_ok_rules(2)[OF ix])
  next
    case False
    then show ?thesis
      unfolding ob at bn
      by (simp add: index_at_erase_eq delete_conv' index_ok_rules(2)[OF ix])
  qed
  have "index_ok ?s'" unfolding index_ok_def using T N by blast
  moreover have "ids_unique ?s'" using un by (simp add: ids_unique_def ob)
  ultimately show ?thesis
    using store_ok_removeAtom[OF ok] by (simp add: space_inv_def)
qed


lemma inv_focus: "space_inv s \<Longrightarrow> space_inv (s\<lparr>attentional_focus := f\<rparr>)"
  by (simp add: space_inv_def store_ok_def index_ok_def ids_unique_def)

lemma inv_clear: "space_inv s \<Longrightarrow> space_inv (clear s)"
  by (simp add: space_inv_def store_ok_clear)
     (simp add: index_ok_def ids_unique_def clear_def index_at_def)

lemma inv_new: "space_inv (new_AgentSpace name)"
  by (simp add: space_inv_def store_ok_new)
     (simp add: index_ok_def ids_unique_def new_AgentSpace_def index_at_def)

lemma inv_fold_modify:
  assumes "\<And>a. atom_id (f a) = atom_id a"
    and "\<And>a. atom_type (f a) = atom_type a"
    and "\<And>a. atom_name (f a) = atom_name a"
  shows "space_inv s \<Longrightarrow> space_inv (fold (\<lambda>p. modify p f) ps s)"
  by (induction ps arbitrary: s) (simp_all add: inv_modify assms)

lemma inv_updateAttentionValues: "space_inv s \<Longrightarrow> space_inv (updateAttentionValues s)"
  unfolding updateAttentionValues_fold
  by (rule inv_fold_modify) (simp_all add: decay_atom_def)

lemma unused_id_modify [simp]: "unused_id u (modify p f s) = unused_id u s"
  if "\<And>a. atom_id (f a) = atom_id a"
proof -
  have "map atom_id (objects (modify p f s)) = map atom_id (objects s)"
    using that by (simp add: modify_def map_update list_update_same_conv)
  then show ?thesis by (simp add: unused_id_def)
qed

lemma inv_addMemoryNode:
  assumes "space_inv s" and "unused_id uuid s"
  shows "space_inv (snd (addMemoryNode c ty uuid short now s))"
proof -
  let ?a = "new_Atom uuid now MEMORY_NODE (''memory_'' @ short) (Node c)"
  let ?p = "fst (alloc ?a s)"
  let ?s3 = "setAttentionValue ?p (mk_AttentionValue 0.5 0.0 0.3)
               (setMetadata ?p ''memory_type'' ty (snd (alloc ?a s)))"
  have "unused_id (atom_id ?a) s" using assms(2) by (simp add: new_Atom_def)
  then have "space_inv (snd (alloc ?a s))" using assms(1) by (rule inv_alloc[rotated])
  then have ok: "space_inv ?s3"
    unfolding setAttentionValue_def setMetadata_def
    by (intro inv_modify) simp_all
  have p: "ptr_ok ?s3 (Some ?p)"
    unfolding setAttentionValue_def setMetadata_def by (simp add: ptr_ok_modify ptr_ok_alloc)
  have "snd (addMemoryNode c ty uuid short now s) = snd (addAtom (Some ?p) ?s3)"
    by (simp add: addMemoryNode_def new_Node_def Let_def split_beta)
  then show ?thesis using inv_addAtom[OF ok p] by simp
qed

lemma inv_addTrustRelationship:
  assumes "space_inv s" and "unused_id uuid s"
  shows "space_inv (snd (addTrustRelationship a1 a2 lvl uuid now fmt s))"
proof (cases "getAtom a1 s")
  case None
  then show ?thesis using assms by (simp add: addTrustRelationship_def)
next
  case (Some p1)
  show ?thesis
  proof (cases "getAtom a2 s")
    case None
    then show ?thesis using assms Some by (simp add: addTrustRelationship_def)
  next
    case (Some p2)
    let ?a = "new_Atom uuid now TRUST_LINK [] (Link [Some p1, Some p2])"
    let ?p = "fst (alloc ?a s)"
    let ?s3 = "setMetadata ?p ''trust_level'' (fmt lvl)
                 (setTruthValue ?p (mk_TruthValue lvl 0.5) (snd (alloc ?a s)))"
    have "unused_id (atom_id ?a) s" using assms(2) by (simp add: new_Atom_def)
    then have "space_inv (snd (alloc ?a s))" using assms(1) by (rule inv_alloc[rotated])
    then have ok: "space_inv ?s3"
      unfolding setTruthValue_def setMetadata_def
      by (intro inv_modify) simp_all
    have p: "ptr_ok ?s3 (Some ?p)"
      unfolding setTruthValue_def setMetadata_def by (simp add: ptr_ok_modify ptr_ok_alloc)
    have "snd (addTrustRelationship a1 a2 lvl uuid now fmt s) = snd (addAtom (Some ?p) ?s3)"
      using \<open>getAtom a1 s = Some p1\<close> Some
      by (simp add: addTrustRelationship_def new_Link_def Let_def split_beta)
    then show ?thesis using inv_addAtom[OF ok p] by simp
  qed
qed

lemma inv_apply:
  assumes "space_inv s" and "op_allowed op s"
  shows "space_inv (apply_op op s)"
proof (cases op)
  case (OpNewNode ty name v uuid now)
  then show ?thesis using assms by (simp add: new_Node_def inv_alloc new_Atom_def)
next
  case (OpNewLink ty out name uuid now)
  then show ?thesis using assms by (simp add: new_Link_def inv_alloc new_Atom_def)
next
  case (OpAddAtom atom)
  then show ?thesis using assms by (simp add: inv_addAtom)
next
  case (OpRemoveAtom ident)
  then show ?thesis using assms by (simp add: inv_removeAtom)
next
  case (OpSetName p name)
  then show ?thesis using assms by (simp add: setName_def inv_modify_unstored)
next
  case (OpSetTruthValue p tv)
  then show ?thesis using assms by (simp add: setTruthValue_def inv_modify)
next
  case (OpSetAttentionValue p av)
  then show ?thesis using assms by (simp add: setAttentionValue_def inv_modify)
next
  case (OpSetMetadata p key v)
  then show ?thesis using assms by (simp add: setMetadata_def inv_modify)
next
  case (OpAddOutgoing p atom)
  then show ?thesis using assms
    by (auto simp: addOutgoing_def split: option.splits AtomKind.splits intro!: inv_modify)
next
  case (OpRemoveOutgoing p atom)
  then show ?thesis using assms
    by (auto simp: removeOutgoing_def split: AtomKind.splits intro!: inv_modify)
next
  case (OpAddMemoryNode content ty uuid short now)
  then show ?thesis using assms by (simp add: inv_addMemoryNode)
next
  case (OpAddTrustRelationship a1 a2 lvl uuid now fmt)
  then show ?thesis using assms by (simp add: inv_addTrustRelationship)
next
  case (OpAddToAttentionalFocus ident)
  then show ?thesis using assms by (simp add: addToAttentionalFocus_def Let_def inv_focus)
next
  case (OpRemoveFromAttentionalFocus ident)
  then show ?thesis using assms by (simp add: removeFromAttentionalFocus_def inv_focus)
next
  case OpUpdateAttentionValues
  then show ?thesis using assms by (simp add: inv_updateAttentionValues)
next
  case OpClear
  then show ?thesis using assms by (simp add: inv_clear)
qed

lemma inv_run: "space_inv s \<Longrightarrow> ops_allowed ops s \<Longrightarrow> space_inv (run_ops ops s)"
  unfolding run_ops_def by (induction ops arbitrary: s) (simp_all add: inv_apply)

text \<open>As long as no atom is renamed while it is in the store, the indices mirror the store
  in every reachable state.\<close>

lemma index_consistent_without_rename:
  assumes "ops_allowed ops (new_AgentSpace name)"
  shows "index_ok (run_ops ops (new_AgentSpace name))"
  using inv_run[OF inv_new assms] by (simp add: space_inv_def)

text \<open>C6, on the code: a node is added under the name \<open>x\<close> and then renamed to \<open>y\<close> with
  \<open>setName\<close>. The atom is live and its current name is \<open>y\<close>, but its id is in the
  name-index set of \<open>x\<close> and not in that of \<open>y\<close>. After \<open>removeAtom\<close> the id is no longer in
  the store and still in the name-index set of \<open>x\<close>.\<close>

theorem C6_rename_leaves_stale_index:
  "getAtom ''id1'' space_renamed = Some 0
   \<and> atom_name (objects space_renamed ! 0) = ''y''
   \<and> ''id1'' \<notin> index_at (atoms_by_name space_renamed) ''y''
   \<and> ''id1'' \<in> index_at (atoms_by_name space_renamed) ''x''
   \<and> getAtom ''id1'' space_removed = None
   \<and> ''id1'' \<in> index_at (atoms_by_name space_removed) ''x''
   \<and> ''id1'' \<notin> index_at (atoms_by_type space_removed) NODE"
  by code_simp


end
